theory Spec2Isabelle
  imports Complex_Main "HOL-Library.Sublist" "HOL-Library.AList"
begin

section \<open>Exceptions and rule sets\<close>

text \<open>
  Python exceptions are values: a class and the text \<open>str(e)\<close> gives. Every class below
  derives from \<open>Exception\<close>; only \<open>IOError\<close> is an \<open>IOError\<close>. A function that can
  raise returns \<open>py_exception + 'a\<close>, with \<open>Inl\<close> for the exception raised.
\<close>

datatype exc_class =
  IOError | UnicodeDecodeError | TypeError | KeyError | AssertionError
  | AttributeError | XPathEvalError | ParserError | OtherException

datatype py_exception = PyExc (exc_class: exc_class) (exc_text: string)

text \<open>
  A rule set is the dictionary \<open>load_rules\<close> builds (a \<open>defaultdict(list)\<close>): the list
  directives hold lists of strings, \<open>find_replace\<close> holds pairs, the flags \<open>lxml_clean\<close>
  and \<open>prune\<close> hold booleans. It is an association list with distinct keys; \<open>not d\<close>
  is \<open>d = []\<close>. A look-up of an absent key gives the empty list. The three look-ups
  below read a key at the shape the scraper uses it at: the strings of a list
  directive, the pairs of \<open>find_replace\<close>, and \<open>spec[k] is not False\<close> for a flag.
\<close>

datatype directive = Flag bool | Values "string list" | Pairs "(string \<times> string) list"

type_synonym sitespec = "(string \<times> directive) list"

definition spec_values :: "sitespec \<Rightarrow> string \<Rightarrow> string list" where
  "spec_values spec k = (case map_of spec k of Some (Values vs) \<Rightarrow> vs | _ \<Rightarrow> [])"

definition spec_pairs :: "sitespec \<Rightarrow> string \<Rightarrow> (string \<times> string) list" where
  "spec_pairs spec k = (case map_of spec k of Some (Pairs ps) \<Rightarrow> ps | _ \<Rightarrow> [])"

definition spec_is_not_False :: "sitespec \<Rightarrow> string \<Rightarrow> bool" where
  "spec_is_not_False spec k = (map_of spec k \<noteq> Some (Flag False))"

text \<open>
  A result dictionary (field name to string) is an association list with distinct
  keys as well; \<open>result[k] = v\<close> is \<open>AList.update k v result\<close>.
\<close>

type_synonym article = "(string \<times> string) list"

section \<open>cascade.py: the superdomain walk\<close>

text \<open>
  \<open>load_sitespec(hostname)\<close> opens \<open>sitespecs/<hostname>.txt\<close> and hands the file to
  \<open>load_rules\<close>. The file system and \<open>load_rules\<close> are the parameter \<open>store\<close>: for each
  hostname key, the rule set loaded or the exception raised.
\<close>

type_synonym store = "string \<Rightarrow> py_exception + sitespec"

definition load_sitespec :: "store \<Rightarrow> string \<Rightarrow> py_exception + sitespec" where
  "load_sitespec st hostname = st hostname"

text \<open>\<open>s.partition(sep)[2]\<close>: what follows the first \<open>sep\<close>, empty when there is none.\<close>

fun partition_tail :: "char \<Rightarrow> string \<Rightarrow> string" where
  "partition_tail sep [] = []"
| "partition_tail sep (c # cs) = (if c = sep then cs else partition_tail sep cs)"

lemma partition_tail_length: "length (partition_tail sep s) \<le> length s"
  by (induction s) auto

lemma partition_tail_shorter: "s \<noteq> [] \<Longrightarrow> length (partition_tail sep s) < length s"
  by (cases s) (auto simp: less_Suc_eq_le partition_tail_length)

lemma partition_tail_nonempty: "partition_tail sep s \<noteq> [] \<Longrightarrow> s \<noteq> []"
  by (cases s) auto

function load_superdomains :: "store \<Rightarrow> string \<Rightarrow> py_exception + sitespec option" where
  "load_superdomains st hostname =
     (case (case load_sitespec st hostname of
              Inl e \<Rightarrow> (if exc_class e = IOError then Inr [] else Inl e)
            | Inr d \<Rightarrow> Inr d) of
        Inl e \<Rightarrow> Inl e
      | Inr d \<Rightarrow>
          (if d = [] then
             (let super_domain = partition_tail (CHR ''.'') hostname in
              if super_domain \<noteq> [] then load_superdomains st super_domain else Inr None)
           else Inr (Some d)))"
  by pat_completeness auto
termination
  by (relation "measure (\<lambda>(st, hostname). length hostname)")
     (auto intro: partition_tail_shorter partition_tail_nonempty)

declare load_superdomains.simps [simp del]

text \<open>
  The hostname chain of the specification: the candidate keys obtained by dropping the
  leftmost label again and again, the most specific first.
\<close>

function hostname_chain :: "string \<Rightarrow> string list" where
  "hostname_chain h =
     h # (if partition_tail (CHR ''.'') h \<noteq> [] then hostname_chain (partition_tail (CHR ''.'') h)
          else [])"
  by pat_completeness auto
termination
  by (relation "measure length") (auto intro: partition_tail_shorter partition_tail_nonempty)

declare hostname_chain.simps [simp del]

text \<open>A look-up the walk passes over: no file (an \<open>IOError\<close>), or a rule set with no rules.\<close>

definition skipped :: "py_exception + sitespec \<Rightarrow> bool" where
  "skipped r = (case r of Inl e \<Rightarrow> exc_class e = IOError | Inr d \<Rightarrow> d = [])"

text \<open>A look-up that raises an exception other than \<open>IOError\<close>.\<close>

definition fails_hard :: "py_exception + sitespec \<Rightarrow> bool" where
  "fails_hard r = (case r of Inl e \<Rightarrow> exc_class e \<noteq> IOError | Inr d \<Rightarrow> False)"

text \<open>
  The same walk with a bound on the depth of the recursion: \<open>None\<close> when the bound is
  reached before the walk has returned.
\<close>

fun load_superdomains_fuel :: "nat \<Rightarrow> store \<Rightarrow> string \<Rightarrow> (py_exception + sitespec option) option" where
  "load_superdomains_fuel 0 st hostname = None"
| "load_superdomains_fuel (Suc n) st hostname =
     (case (case load_sitespec st hostname of
              Inl e \<Rightarrow> (if exc_class e = IOError then Inr [] else Inl e)
            | Inr d \<Rightarrow> Inr d) of
        Inl e \<Rightarrow> Some (Inl e)
      | Inr d \<Rightarrow>
          (if d = [] then
             (let super_domain = partition_tail (CHR ''.'') hostname in
              if super_domain \<noteq> [] then load_superdomains_fuel n st super_domain else Some (Inr None))
           else Some (Inr (Some d))))"

text \<open>Two stores used as concrete inputs.\<close>

definition example_store :: store where
  "example_store k =
     (if k = ''example.com'' then Inr [(''title'', Values [''//h1''])]
      else if k = ''com'' then Inr [(''body'', Values [''//body''])]
      else if k = ''blog.example.com'' then Inr []
      else Inl (PyExc IOError ''No such file or directory''))"

definition undecodable_store :: store where
  "undecodable_store k =
     (if k = ''example.com'' then Inl (PyExc UnicodeDecodeError ''invalid start byte'')
      else if k = ''com'' then Inr [(''body'', Values [''//body''])]
      else Inl (PyExc IOError ''No such file or directory''))"

subsection \<open>Facts about the walk\<close>

lemma load_superdomains_step:
  "load_superdomains st h =
     (if fails_hard (st h) then (case st h of Inl e \<Rightarrow> Inl e | Inr d \<Rightarrow> Inr (Some d))
      else if skipped (st h) then
        (if partition_tail (CHR ''.'') h \<noteq> [] then load_superdomains st (partition_tail (CHR ''.'') h)
         else Inr None)
      else (case st h of Inl e \<Rightarrow> Inl e | Inr d \<Rightarrow> Inr (Some d)))"
  by (subst load_superdomains.simps)
     (auto simp: fails_hard_def skipped_def load_sitespec_def Let_def split: sum.splits)

lemma skipped_not_hard: "skipped r \<Longrightarrow> \<not> fails_hard r"
  by (auto simp: skipped_def fails_hard_def split: sum.splits)

lemma load_superdomains_find:
  "load_superdomains st h =
     (case find (\<lambda>k. \<not> skipped (st k)) (hostname_chain h) of
        None \<Rightarrow> Inr None
      | Some k \<Rightarrow> (case st k of Inl e \<Rightarrow> Inl e | Inr d \<Rightarrow> Inr (Some d)))"
proof (induction h rule: hostname_chain.induct)
  case (1 h)
  show ?case
  proof (cases "skipped (st h)")
    case True
    then show ?thesis
      using 1 skipped_not_hard[OF True]
      by (subst load_superdomains_step, subst hostname_chain.simps) simp
  next
    case False
    then show ?thesis
      by (subst load_superdomains_step, subst hostname_chain.simps) simp
  qed
qed

lemma hostname_chain_nth0: "hostname_chain h ! 0 = h"
  by (subst hostname_chain.simps) simp

lemma hostname_chain_nonempty: "hostname_chain h \<noteq> []"
  by (subst hostname_chain.simps) simp

lemma hostname_chain_Suc:
  "Suc i < length (hostname_chain h) \<Longrightarrow>
     hostname_chain h ! Suc i = partition_tail (CHR ''.'') (hostname_chain h ! i) \<and>
     hostname_chain h ! Suc i \<noteq> []"
proof (induction h arbitrary: i rule: hostname_chain.induct)
  case (1 h)
  let ?r = "partition_tail (CHR ''.'') h"
  have len: "Suc i < length (hostname_chain h)" using 1(2) .
  have ne: "?r \<noteq> []"
    using len by (subst (asm) hostname_chain.simps) (auto split: if_splits)
  have eq: "hostname_chain h = h # hostname_chain ?r"
    using ne by (subst hostname_chain.simps) simp
  show ?case
  proof (cases i)
    case 0
    then show ?thesis using eq ne by (simp add: hostname_chain_nth0)
  next
    case (Suc j)
    then have "Suc j < length (hostname_chain ?r)" using len eq by simp
    from 1(1)[OF ne this] show ?thesis unfolding eq Suc nth_Cons_Suc by blast
  qed
qed

lemma hostname_chain_last: "partition_tail (CHR ''.'') (last (hostname_chain h)) = []"
proof (induction h rule: hostname_chain.induct)
  case (1 h)
  show ?case
    using 1 by (subst hostname_chain.simps) (simp add: hostname_chain_nonempty)
qed

lemma partition_tail_suffix: "suffix (partition_tail sep s) s"
  by (induction s) (auto simp: suffix_Cons)

lemma hostname_chain_suffix: "k \<in> set (hostname_chain h) \<Longrightarrow> suffix k h"
proof (induction h rule: hostname_chain.induct)
  case (1 h)
  from 1(2) show ?case
    apply (subst (asm) hostname_chain.simps)
    apply (auto split: if_splits dest!: 1(1) intro: suffix_order.trans partition_tail_suffix)
    done
qed

lemma hostname_chain_decreasing:
  "j < length (hostname_chain h) \<Longrightarrow> i < j \<Longrightarrow>
     length (hostname_chain h ! j) < length (hostname_chain h ! i)"
proof (induction j)
  case 0
  then show ?case by simp
next
  case (Suc j)
  from Suc.prems(1) have step: "hostname_chain h ! Suc j = partition_tail (CHR ''.'') (hostname_chain h ! j)"
    and ne: "hostname_chain h ! Suc j \<noteq> []"
    using hostname_chain_Suc by blast+
  have "length (hostname_chain h ! Suc j) < length (hostname_chain h ! j)"
    using step ne partition_tail_shorter partition_tail_nonempty by metis
  moreover have "i < j \<Longrightarrow> length (hostname_chain h ! j) < length (hostname_chain h ! i)"
    using Suc by simp
  ultimately show ?case using Suc.prems(2) by (cases "i = j") auto
qed

lemma partition_tail_dot: "partition_tail sep s \<noteq> [] \<Longrightarrow> sep \<in> set s"
  by (induction s) (auto split: if_splits)

lemma partition_tail_count:
  "sep \<in> set s \<Longrightarrow> count_list (partition_tail sep s) sep < count_list s sep"
  by (induction s) auto

lemma load_superdomains_fuel_enough:
  "count_list h (CHR ''.'') < n \<Longrightarrow> load_superdomains_fuel n st h = Some (load_superdomains st h)"
proof (induction n arbitrary: h)
  case 0
  then show ?case by simp
next
  case (Suc n)
  let ?r = "partition_tail (CHR ''.'') h"
  have "?r \<noteq> [] \<Longrightarrow> count_list ?r (CHR ''.'') < n"
    using Suc.prems partition_tail_count[OF partition_tail_dot, of "CHR ''.''" h] by simp
  then have "?r \<noteq> [] \<Longrightarrow> load_superdomains_fuel n st ?r = Some (load_superdomains st ?r)"
    using Suc.IH by blast
  then show ?case
    by (subst load_superdomains.simps) (simp add: Let_def split: sum.splits)
qed


subsection \<open>Claims about the walk\<close>

text \<open>
  Claim C1. \<open>load_superdomains\<close> returns a rule set exactly when it is the rule set
  loaded for a key of the hostname chain, it is not empty, and every key before it in
  the chain has been passed over (no file, or a rule set that loads empty); and it
  returns \<open>None\<close> exactly when every key of the chain is passed over. The chain starts
  at the hostname, each next key is what follows the first dot of the key before it (so
  the keys get strictly shorter: the first is the longest), and it ends where nothing
  follows a dot. When the look-ups of the chain either load a rule set or raise
  \<open>IOError\<close>, one of the two is the case.
\<close>

theorem load_superdomains_most_specific:
  "hostname_chain h ! 0 = h
    \<and> (\<forall>i. Suc i < length (hostname_chain h) \<longrightarrow>
          hostname_chain h ! Suc i = partition_tail (CHR ''.'') (hostname_chain h ! i)
          \<and> hostname_chain h ! Suc i \<noteq> []
          \<and> length (hostname_chain h ! Suc i) < length (hostname_chain h ! i))
    \<and> partition_tail (CHR ''.'') (last (hostname_chain h)) = []
    \<and> (\<forall>d. load_superdomains st h = Inr (Some d) \<longleftrightarrow>
          (\<exists>i < length (hostname_chain h).
              st (hostname_chain h ! i) = Inr d \<and> d \<noteq> []
              \<and> (\<forall>j < i. skipped (st (hostname_chain h ! j)))))
    \<and> (load_superdomains st h = Inr None \<longleftrightarrow>
          (\<forall>k \<in> set (hostname_chain h). skipped (st k)))
    \<and> ((\<forall>k \<in> set (hostname_chain h). \<not> fails_hard (st k)) \<longrightarrow>
          (\<exists>r. load_superdomains st h = Inr r))"
proof -
  let ?c = "hostname_chain h"
  let ?P = "\<lambda>k. \<not> skipped (st k)"
  have walk: "load_superdomains st h =
     (case find ?P ?c of None \<Rightarrow> Inr None
      | Some k \<Rightarrow> (case st k of Inl e \<Rightarrow> Inl e | Inr d \<Rightarrow> Inr (Some d)))"
    by (rule load_superdomains_find)
  have steps: "\<forall>i. Suc i < length ?c \<longrightarrow>
          ?c ! Suc i = partition_tail (CHR ''.'') (?c ! i) \<and> ?c ! Suc i \<noteq> []
          \<and> length (?c ! Suc i) < length (?c ! i)"
    using hostname_chain_Suc hostname_chain_decreasing by blast
  have some: "load_superdomains st h = Inr (Some d) \<longleftrightarrow>
          (\<exists>i < length ?c. st (?c ! i) = Inr d \<and> d \<noteq> [] \<and> (\<forall>j < i. skipped (st (?c ! j))))" for d
  proof
    assume res: "load_superdomains st h = Inr (Some d)"
    then obtain k where f: "find ?P ?c = Some k" and k: "st k = Inr d"
      using walk by (auto split: option.splits sum.splits)
    from f obtain i where i: "i < length ?c" "?P (?c ! i)" "k = ?c ! i" "\<forall>j<i. \<not> ?P (?c ! j)"
      unfolding find_Some_iff by blast
    have "d \<noteq> []" using i(2,3) k by (simp add: skipped_def)
    then show "\<exists>i < length ?c. st (?c ! i) = Inr d \<and> d \<noteq> [] \<and> (\<forall>j < i. skipped (st (?c ! j)))"
      using i k by auto
  next
    assume "\<exists>i < length ?c. st (?c ! i) = Inr d \<and> d \<noteq> [] \<and> (\<forall>j < i. skipped (st (?c ! j)))"
    then obtain i where i: "i < length ?c" "st (?c ! i) = Inr d" "d \<noteq> []"
      "\<forall>j < i. skipped (st (?c ! j))" by blast
    have "?P (?c ! i)" using i(2,3) by (simp add: skipped_def)
    then have "find ?P ?c = Some (?c ! i)"
      unfolding find_Some_iff using i(1,4) by auto
    then show "load_superdomains st h = Inr (Some d)"
      using walk i(2) by simp
  qed
  have none: "load_superdomains st h = Inr None \<longleftrightarrow> (\<forall>k \<in> set ?c. skipped (st k))"
  proof
    assume res: "load_superdomains st h = Inr None"
    then have "find ?P ?c = None"
      using walk by (auto split: option.splits sum.splits)
    then show "\<forall>k \<in> set ?c. skipped (st k)"
      unfolding find_None_iff by blast
  next
    assume "\<forall>k \<in> set ?c. skipped (st k)"
    then have "find ?P ?c = None" unfolding find_None_iff by blast
    then show "load_superdomains st h = Inr None" using walk by simp
  qed
  have total: "\<exists>r. load_superdomains st h = Inr r"
    if no_hard: "\<forall>k \<in> set (hostname_chain h). \<not> fails_hard (st k)"
  proof (cases "find ?P ?c")
    case None
    then show ?thesis using walk by simp
  next
    case (Some k)
    then have "k \<in> set ?c" "?P k"
      unfolding find_Some_iff by auto
    then have "\<not> fails_hard (st k)" using no_hard by blast
    then obtain d where "st k = Inr d"
      using \<open>?P k\<close> by (cases "st k") (auto simp: fails_hard_def skipped_def)
    then show ?thesis using walk Some by simp
  qed
  show ?thesis
    using hostname_chain_nth0 steps hostname_chain_last some none total by blast
qed

theorem load_superdomains_most_specific_witness:
  "load_superdomains example_store ''news.blog.example.com'' = Inr (Some [(''title'', Values [''//h1''])])
   \<and> hostname_chain ''news.blog.example.com'' = [''news.blog.example.com'', ''blog.example.com'', ''example.com'', ''com'']
   \<and> (\<exists>i < length (hostname_chain ''news.blog.example.com'').
          example_store (hostname_chain ''news.blog.example.com'' ! i) = Inr [(''title'', Values [''//h1''])]
          \<and> (\<forall>j < i. skipped (example_store (hostname_chain ''news.blog.example.com'' ! j))))
   \<and> load_superdomains example_store ''org'' = Inr None
   \<and> (\<exists>r. load_superdomains example_store ''news.blog.example.com'' = Inr r)"
proof -
  have chain: "hostname_chain ''news.blog.example.com'' =
      [''news.blog.example.com'', ''blog.example.com'', ''example.com'', ''com'']"
    by (simp add: hostname_chain.simps)
  have hyp: "\<forall>k \<in> set (hostname_chain ''news.blog.example.com''). \<not> fails_hard (example_store k)"
    unfolding chain by (simp add: example_store_def fails_hard_def)
  have res: "load_superdomains example_store ''news.blog.example.com'' = Inr (Some [(''title'', Values [''//h1''])])"
    by (simp add: load_superdomains.simps example_store_def load_sitespec_def)
  have chain2: "hostname_chain ''org'' = [''org'']"
    by (simp add: hostname_chain.simps)
  have total: "\<exists>r. load_superdomains example_store ''news.blog.example.com'' = Inr r"
    using load_superdomains_most_specific [of "''news.blog.example.com''" example_store] hyp by blast
  have "\<forall>k \<in> set (hostname_chain ''org''). skipped (example_store k)"
    unfolding chain2 by (simp add: example_store_def skipped_def)
  then have none: "load_superdomains example_store ''org'' = Inr None"
    using load_superdomains_most_specific [of "''org''" example_store] by blast
  have "\<exists>i < length (hostname_chain ''news.blog.example.com'').
          example_store (hostname_chain ''news.blog.example.com'' ! i) = Inr [(''title'', Values [''//h1''])]
          \<and> [(''title'', Values [''//h1''])] \<noteq> []
          \<and> (\<forall>j < i. skipped (example_store (hostname_chain ''news.blog.example.com'' ! j)))"
    using load_superdomains_most_specific [of "''news.blog.example.com''" example_store] res by blast
  then show ?thesis using res chain none total by blast
qed

text \<open>
  Claim C5, as stated, fails: the handler of \<open>load_superdomains\<close> is \<open>except IOError\<close>, so
  a failure of another class raised while the file is read or loaded (here a decoding
  error) leaves the walk as an exception, where a missing file at the same key would
  have let the walk go on to \<open>com\<close>.
\<close>

theorem load_superdomains_other_failure_propagates:
  "load_superdomains undecodable_store ''example.com''
     = Inl (PyExc UnicodeDecodeError ''invalid start byte'')
   \<and> load_superdomains
       (undecodable_store (''example.com'' := Inl (PyExc IOError ''No such file or directory'')))
       ''example.com''
     = Inr (Some [(''body'', Values [''//body''])])"
  by (simp add: load_superdomains.simps undecodable_store_def load_sitespec_def)

text \<open>
  Claim C5, amended. A failure raised as \<open>IOError\<close> for a key (a missing file or any
  other input/output error) is treated exactly like a missing file: the walk goes on
  to the next superdomain, or returns \<open>None\<close> when there is none, and the result is the
  one the store with a missing file at that key gives. A failure of any other class is
  raised to the caller.
\<close>

theorem load_superdomains_failure:
  assumes "st h = Inl e"
  shows "load_superdomains st h =
     (if exc_class e = IOError then
        (if partition_tail (CHR ''.'') h \<noteq> []
         then load_superdomains st (partition_tail (CHR ''.'') h) else Inr None)
      else Inl e)
    \<and> (exc_class e = IOError \<longrightarrow>
          load_superdomains st h =
          load_superdomains (st (h := Inl (PyExc IOError ''No such file or directory''))) h)"
proof -
  let ?r = "partition_tail (CHR ''.'') h"
  define st' where "st' = st (h := Inl (PyExc IOError ''No such file or directory''))"
  have st'_h: "st' h = Inl (PyExc IOError ''No such file or directory'')"
    and st'_other: "\<And>k. k \<noteq> h \<Longrightarrow> st' k = st k"
    by (simp_all add: st'_def)
  have first: "load_superdomains st h =
     (if exc_class e = IOError then
        (if ?r \<noteq> [] then load_superdomains st ?r else Inr None)
      else Inl e)"
    using assms by (subst load_superdomains.simps) (simp add: load_sitespec_def)
  have same: "load_superdomains st' k = load_superdomains st k" if "length k < length h" for k
    using that
  proof (induction k rule: hostname_chain.induct)
    case (1 k)
    let ?k = "partition_tail (CHR ''.'') k"
    have ne: "k \<noteq> h" using 1(2) by auto
    have len: "length ?k < length h"
      using 1(2) partition_tail_length [of "CHR ''.''" k] by simp
    have rec: "?k \<noteq> [] \<Longrightarrow> load_superdomains st' ?k = load_superdomains st ?k"
      using 1(1) len by blast
    show ?case
      unfolding load_superdomains_step [of st' k] load_superdomains_step [of st k]
      using rec st'_other [OF ne] by simp
  qed
  have second: "load_superdomains st h = load_superdomains st' h" if io: "exc_class e = IOError"
  proof -
    have "load_superdomains st' h = (if ?r \<noteq> [] then load_superdomains st' ?r else Inr None)"
      using st'_h by (subst load_superdomains.simps) (simp add: load_sitespec_def)
    moreover have "?r \<noteq> [] \<Longrightarrow> load_superdomains st' ?r = load_superdomains st ?r"
      using same partition_tail_shorter partition_tail_nonempty by blast
    ultimately show ?thesis using first io by simp
  qed
  show ?thesis using first second unfolding st'_def by blast
qed

theorem load_superdomains_failure_witness:
  "undecodable_store ''www.example.com'' = Inl (PyExc IOError ''No such file or directory'')
   \<and> load_superdomains undecodable_store ''www.example.com''
       = load_superdomains undecodable_store ''example.com''
   \<and> undecodable_store ''example.com'' = Inl (PyExc UnicodeDecodeError ''invalid start byte'')
   \<and> load_superdomains undecodable_store ''example.com''
       = Inl (PyExc UnicodeDecodeError ''invalid start byte'')"
proof -
  have a: "undecodable_store ''www.example.com'' = Inl (PyExc IOError ''No such file or directory'')"
    by (simp add: undecodable_store_def)
  have b: "undecodable_store ''example.com'' = Inl (PyExc UnicodeDecodeError ''invalid start byte'')"
    by (simp add: undecodable_store_def)
  have r: "partition_tail (CHR ''.'') ''www.example.com'' = ''example.com''"
    by simp
  have "load_superdomains undecodable_store ''www.example.com''
       = load_superdomains undecodable_store ''example.com''"
    using load_superdomains_failure [of undecodable_store "''www.example.com''", OF a] unfolding r by simp
  moreover have "load_superdomains undecodable_store ''example.com''
       = Inl (PyExc UnicodeDecodeError ''invalid start byte'')"
    using load_superdomains_failure [of undecodable_store "''example.com''", OF b] by simp
  ultimately show ?thesis using a b by blast
qed

text \<open>
  Claim C9. The walk terminates on every string. Each recursive call is made on what
  follows the first dot of the hostname, which is strictly shorter than the hostname;
  a hostname with no dot makes no recursive call (it returns the rule set loaded for
  it, \<open>None\<close>, or the exception raised); and a recursion depth of one more than the
  number of dots of the hostname is enough for the walk to return.
\<close>

theorem load_superdomains_terminates:
  "(partition_tail (CHR ''.'') h \<noteq> [] \<longrightarrow>
      length (partition_tail (CHR ''.'') h) < length h \<and> suffix (partition_tail (CHR ''.'') h) h)
   \<and> (CHR ''.'' \<notin> set h \<longrightarrow>
        load_superdomains st h =
          (if fails_hard (st h) then (case st h of Inl e \<Rightarrow> Inl e | Inr d \<Rightarrow> Inr (Some d))
           else if skipped (st h) then Inr None
           else (case st h of Inl e \<Rightarrow> Inl e | Inr d \<Rightarrow> Inr (Some d))))
   \<and> (\<forall>n. count_list h (CHR ''.'') < n \<longrightarrow>
          load_superdomains_fuel n st h = Some (load_superdomains st h))"
proof -
  have a: "partition_tail (CHR ''.'') h \<noteq> [] \<longrightarrow>
      length (partition_tail (CHR ''.'') h) < length h \<and> suffix (partition_tail (CHR ''.'') h) h"
    using partition_tail_shorter partition_tail_nonempty partition_tail_suffix by blast
  have b: "CHR ''.'' \<notin> set h \<longrightarrow>
        load_superdomains st h =
          (if fails_hard (st h) then (case st h of Inl e \<Rightarrow> Inl e | Inr d \<Rightarrow> Inr (Some d))
           else if skipped (st h) then Inr None
           else (case st h of Inl e \<Rightarrow> Inl e | Inr d \<Rightarrow> Inr (Some d)))"
  proof
    assume "CHR ''.'' \<notin> set h"
    then have "partition_tail (CHR ''.'') h = []"
      using partition_tail_dot by blast
    then show "load_superdomains st h =
          (if fails_hard (st h) then (case st h of Inl e \<Rightarrow> Inl e | Inr d \<Rightarrow> Inr (Some d))
           else if skipped (st h) then Inr None
           else (case st h of Inl e \<Rightarrow> Inl e | Inr d \<Rightarrow> Inr (Some d)))"
      by (subst load_superdomains_step) simp
  qed
  show ?thesis using a b load_superdomains_fuel_enough by blast
qed

theorem load_superdomains_terminates_witness:
  "count_list ''a..b.'' (CHR ''.'') < 4
   \<and> load_superdomains_fuel 4 example_store ''a..b.'' = Some (Inr None)
   \<and> load_superdomains example_store ''a..b.'' = Inr None
   \<and> CHR ''.'' \<notin> set ''localhost''
   \<and> load_superdomains example_store ''localhost'' = Inr None"
proof -
  have c: "count_list ''a..b.'' (CHR ''.'') < 4" by simp
  have d: "CHR ''.'' \<notin> set ''localhost''" by simp
  have f: "load_superdomains_fuel 4 example_store ''a..b.'' = Some (Inr None)"
    by (simp add: numeral_eq_Suc example_store_def load_sitespec_def)
  have s: "skipped (example_store ''localhost'')" "\<not> fails_hard (example_store ''localhost'')"
    by (simp_all add: example_store_def skipped_def fails_hard_def)
  show ?thesis
    using load_superdomains_terminates [of "''a..b.''" example_store]
      load_superdomains_terminates [of "''localhost''" example_store] c d f s
    by simp
qed

section \<open>instapaper.py: the find and replace phase\<close>

text \<open>
  \<open>s.replace(old, new)\<close> of Python: the occurrences of \<open>old\<close> are found from the left,
  without overlap, and each is replaced by \<open>new\<close>; the scan goes on after the occurrence
  in the source text. An empty \<open>old\<close> puts \<open>new\<close> before every character and at the end.
\<close>

function replace_scan :: "string \<Rightarrow> string \<Rightarrow> string \<Rightarrow> string" where
  "replace_scan old new [] = []"
| "replace_scan old new (c # cs) =
     (if old \<noteq> [] \<and> prefix old (c # cs)
      then new @ replace_scan old new (drop (length old) (c # cs))
      else c # replace_scan old new cs)"
  by pat_completeness auto
termination
  by (relation "measure (\<lambda>(old, new, s). length s)") auto

definition str_replace :: "string \<Rightarrow> string \<Rightarrow> string \<Rightarrow> string" where
  "str_replace old new s =
     (if old = [] then new @ concat (map (\<lambda>c. c # new) s) else replace_scan old new s)"

text \<open>The loop of \<open>_find_replace\<close> over the pairs of the rule set, and the method itself.\<close>

fun find_replace_loop :: "(string \<times> string) list \<Rightarrow> string \<Rightarrow> string" where
  "find_replace_loop [] source = source"
| "find_replace_loop ((find_string, replace_string) # pairs) source =
     find_replace_loop pairs (str_replace find_string replace_string source)"

definition find_replace :: "sitespec \<Rightarrow> string \<Rightarrow> string" where
  "find_replace spec source = find_replace_loop (spec_pairs spec ''find_replace'') source"






section \<open>instapaper.py: the document tree\<close>

text \<open>
  An lxml node is an element, a comment, or a run of character data. lxml keeps
  character data in the \<open>text\<close> field of the element it follows the start tag of and in
  the \<open>tail\<close> field of the node it follows; here each run is a \<open>Text\<close> child at its
  place among the children, so that \<open>text_content()\<close> is the concatenation of the runs
  in document order and \<open>drop_tree()\<close>, which joins the tail of the dropped element to
  the text before it, is the removal of the element from the list of children.
  \<open>len(e)\<close> counts the children that are elements or comments.

  Character data is a Python string: the list of its items, each the number of a
  character. A text whose items are all below 128 is a byte string (\<open>str\<close>) in the
  hands of lxml under Python 2, any other is a \<open>unicode\<close> string. Tags, attribute names
  and attribute values, which the scraper only compares with the strings of the rule
  set, are strings.
\<close>

type_synonym unicode = "nat list"

definition ustr :: "string \<Rightarrow> unicode" where
  "ustr s = map of_char s"

datatype node =
  Element (tag: string) (attrib: "(string \<times> string) list") (children: "node list")
  | Text unicode
  | Comment unicode

fun is_text :: "node \<Rightarrow> bool" where
  "is_text (Text s) = True"
| "is_text n = False"

fun is_element :: "node \<Rightarrow> bool" where
  "is_element (Element t a cs) = True"
| "is_element n = False"

definition len :: "node list \<Rightarrow> nat" where
  "len cs = length (filter (\<lambda>c. \<not> is_text c) cs)"

fun text_content :: "node \<Rightarrow> unicode" and text_content_list :: "node list \<Rightarrow> unicode" where
  "text_content (Element t a cs) = text_content_list cs"
| "text_content (Text s) = s"
| "text_content (Comment s) = []"
| "text_content_list [] = []"
| "text_content_list (c # cs) = text_content c @ text_content_list cs"

fun elements :: "node \<Rightarrow> (string \<times> (string \<times> string) list) list"
  and elements_list :: "node list \<Rightarrow> (string \<times> (string \<times> string) list) list" where
  "elements (Element t a cs) = (t, a) # elements_list cs"
| "elements (Text s) = []"
| "elements (Comment s) = []"
| "elements_list [] = []"
| "elements_list (c # cs) = elements c @ elements_list cs"

text \<open>
  The scraper never holds a node alone: the element \<open>html.fromstring\<close> returns, and the
  body selected in it, sit in a tree. A \<open>located\<close> node is the node (\<open>loc_node\<close>) with the
  elements above it (\<open>loc_above\<close>, the root of the tree first), each with its tag, its
  attributes and its children before and after the place of the next one down.
  \<open>tree_of\<close> is the whole tree and \<open>position\<close> the path of the node in it. An element
  with nothing above it has no parent. The tree of a freshly parsed node is the
  document. Once the node, or an element above it, has been dropped it sits in a tree
  of its own: \<open>loc_document\<close> is then the document it was taken out of, which the
  absolute expressions of libxml2 still start from, and \<open>loc_tail\<close> the tail that the
  top of the tree has taken with it (the root of a document has none).
\<close>

datatype crumb =
  Crumb (siblings_before: "node list") (crumb_tag: string)
    (crumb_attrib: "(string \<times> string) list") (siblings_after: "node list")

record located =
  loc_tail :: unicode
  loc_document :: "node option"
  loc_above :: "crumb list"
  loc_node :: node

fun plug :: "crumb list \<Rightarrow> node \<Rightarrow> node" where
  "plug [] n = n"
| "plug (Crumb l t a r # cs) n = Element t a (l @ plug cs n # r)"

definition tree_of :: "located \<Rightarrow> node" where
  "tree_of st = plug (loc_above st) (loc_node st)"

definition position :: "crumb list \<Rightarrow> nat list" where
  "position cs = map (\<lambda>c. length (siblings_before c)) cs"

definition document_of :: "located \<Rightarrow> node" where
  "document_of st = (case loc_document st of None \<Rightarrow> tree_of st | Some d \<Rightarrow> d)"

text \<open>
  A node of a tree is named by its path from the root, the index of a child at each
  step. An XPath expression gives a list of results in document order: nodes of the
  tree of the context node, nodes of the document the context node was taken out of,
  or values that are no nodes (strings, numbers), which have none of the methods of
  an element.

  The library is a parameter: the parser behind \<open>html.fromstring\<close> (the element it
  returns and what is above it, or the exception), the cleaner behind \<open>clean_html\<close>,
  the XPath engine for the expressions the rule set holds as they are, and the
  serializer \<open>html.tostring\<close> (which writes the element and its tail); with them the
  two tables of the Unicode database that the \<open>re\<close> module and \<open>unicode.strip\<close> read,
  \<open>isspace\<close> and \<open>isalnum\<close> of a character, for the characters from 256 on.
\<close>

type_synonym path = "nat list"

datatype xpath_result = Selected path | SelectedInDocument path | NotANode

record lxml =
  lib_parse :: "string \<Rightarrow> py_exception + crumb list \<times> node"
  lib_clean :: "string \<Rightarrow> py_exception + string"
  lib_xpath :: "string \<Rightarrow> located \<Rightarrow> py_exception + xpath_result list"
  lib_tostring :: "located \<Rightarrow> string"
  lib_isspace :: "nat \<Rightarrow> bool"
  lib_isalnum :: "nat \<Rightarrow> bool"

text \<open>
  The Unicode database on the characters below 256. The spaces are the six
  whitespace characters of ASCII, the separators 28 to 31, the next line character
  133 and the no-break space 160. The alphanumerics are the digits and letters of
  ASCII, the ordinal indicators, the micro sign, the superscript digits, the three
  fractions, and the letters from 192 on (all but the multiplication and division
  signs).
\<close>

definition isspace :: "lxml \<Rightarrow> nat \<Rightarrow> bool" where
  "isspace lib c =
     (if c < 256 then c \<in> {9, 10, 11, 12, 13, 28, 29, 30, 31, 32, 133, 160}
      else lib_isspace lib c)"

definition isalnum :: "lxml \<Rightarrow> nat \<Rightarrow> bool" where
  "isalnum lib c =
     (if c < 256 then
        (48 \<le> c \<and> c \<le> 57) \<or> (65 \<le> c \<and> c \<le> 90) \<or> (97 \<le> c \<and> c \<le> 122)
        \<or> c \<in> {170, 178, 179, 181, 185, 186, 188, 189, 190}
        \<or> (192 \<le> c \<and> c \<noteq> 215 \<and> c \<noteq> 247)
      else lib_isalnum lib c)"

text \<open>
  The character classes of \<open>_maybe_prune\<close>, both compiled with \<open>re.UNICODE\<close>:
  \<open>\s\<close> is \<open>[ \t\n\r\f\v]\<close> and whatever the Unicode database has as a space, \<open>\w\<close> is
  \<open>[0-9_]\<close> and whatever the database has as alphanumeric; \<open>nonspecial\<close> is \<open>[\w,\.]\<close>.
  \<open>strip()\<close> removes, at both ends, the six whitespace characters of ASCII from a byte
  string and the spaces of the database from a \<open>unicode\<close> string. \<open>findall_count\<close> is
  \<open>len(pattern.findall(content))\<close> for a pattern that matches one character.
\<close>

definition ascii_whitespace :: "nat \<Rightarrow> bool" where
  "ascii_whitespace c = (c \<in> {32, 9, 10, 11, 12, 13})"

definition whitespace :: "lxml \<Rightarrow> nat \<Rightarrow> bool" where
  "whitespace lib c = (ascii_whitespace c \<or> isspace lib c)"

definition word_char :: "lxml \<Rightarrow> nat \<Rightarrow> bool" where
  "word_char lib c = ((48 \<le> c \<and> c \<le> 57) \<or> c = 95 \<or> isalnum lib c)"

definition nonspecial :: "lxml \<Rightarrow> nat \<Rightarrow> bool" where
  "nonspecial lib c = (word_char lib c \<or> c = 44 \<or> c = 46)"

definition strip_chars :: "('c \<Rightarrow> bool) \<Rightarrow> 'c list \<Rightarrow> 'c list" where
  "strip_chars P s = rev (dropWhile P (rev (dropWhile P s)))"

definition py_strip :: "lxml \<Rightarrow> unicode \<Rightarrow> unicode" where
  "py_strip lib s =
     (if list_all (\<lambda>c. c < 128) s then strip_chars ascii_whitespace s
      else strip_chars (isspace lib) s)"

definition findall_count :: "(nat \<Rightarrow> bool) \<Rightarrow> unicode \<Rightarrow> nat" where
  "findall_count P s = length (filter P s)"

subsection \<open>The prune pass\<close>

text \<open>
  \<open>prune_element\<close> is the local function of \<open>_maybe_prune\<close>; its result is the element as
  the visit leaves it, or \<open>None\<close> when the visit has dropped it from its parent. It
  visits the element children (\<open>e.xpath("*")\<close>) first, each of which may drop itself;
  \<open>prune_children\<close> is that loop, giving the children that are left. If an element or
  a comment is left (\<open>len(e) > 0\<close>) it returns. Otherwise it counts the characters
  of the trimmed text and drops the element when the test on the counts holds.
  \<open>sc\<close> is a Python integer and \<open>float(sc) / (sc + nsc)\<close> the quotient. \<open>_maybe_prune\<close>
  runs the visit on the element children of the body unless \<open>prune\<close> is \<open>False\<close>.
\<close>

fun prune_element :: "lxml \<Rightarrow> real \<Rightarrow> node \<Rightarrow> node option"
  and prune_children :: "lxml \<Rightarrow> real \<Rightarrow> node list \<Rightarrow> node list" where
  "prune_element lib special_limit (Element t a cs) =
     (let kept = prune_children lib special_limit cs in
      if len kept > 0 then Some (Element t a kept)
      else
        (let content = py_strip lib (text_content (Element t a kept));
             nsc = int (findall_count (nonspecial lib) content);
             wc = int (findall_count (whitespace lib) content);
             sc = int (length content) - wc - nsc
         in if t \<noteq> ''br'' \<and> (sc + nsc = 0 \<or> real_of_int sc / real_of_int (sc + nsc) > special_limit)
            then None
            else Some (Element t a kept)))"
| "prune_element lib special_limit (Text s) = Some (Text s)"
| "prune_element lib special_limit (Comment s) = Some (Comment s)"
| "prune_children lib special_limit [] = []"
| "prune_children lib special_limit (c # cs) =
     (if is_element c then
        (case prune_element lib special_limit c of
           None \<Rightarrow> prune_children lib special_limit cs
         | Some c' \<Rightarrow> c' # prune_children lib special_limit cs)
      else c # prune_children lib special_limit cs)"

definition maybe_prune :: "lxml \<Rightarrow> sitespec \<Rightarrow> node \<Rightarrow> real \<Rightarrow> node" where
  "maybe_prune lib spec elem special_limit =
     (if spec_is_not_False spec ''prune'' then
        (case elem of
           Element t a cs \<Rightarrow> Element t a (prune_children lib special_limit cs)
         | n \<Rightarrow> n)
      else elem)"

subsection \<open>Selecting and dropping elements\<close>

text \<open>
  \<open>select_elements P n\<close> is the list, in document order, of the paths of the elements
  of the tree \<open>n\<close>, its root included, whose tag and attributes satisfy \<open>P\<close>: the result
  of \<open>//*[...]\<close> or \<open>//img[...]\<close> on the document \<open>n\<close>. \<open>contains(@class, v)\<close> holds for an
  element when \<open>v\<close> is a substring of its \<open>class\<close> attribute; an attribute that is not
  there has the empty string as its value.
\<close>

fun select_elements :: "(string \<Rightarrow> (string \<times> string) list \<Rightarrow> bool) \<Rightarrow> node \<Rightarrow> path list"
  and select_children :: "(string \<Rightarrow> (string \<times> string) list \<Rightarrow> bool) \<Rightarrow> nat \<Rightarrow> node list \<Rightarrow> path list" where
  "select_elements P (Element t a cs) = (if P t a then [[]] else []) @ select_children P 0 cs"
| "select_elements P (Text s) = []"
| "select_elements P (Comment s) = []"
| "select_children P i [] = []"
| "select_children P i (c # cs) = map ((#) i) (select_elements P c) @ select_children P (Suc i) cs"

definition attribute :: "(string \<times> string) list \<Rightarrow> string \<Rightarrow> string" where
  "attribute a name = (case map_of a name of Some v \<Rightarrow> v | None \<Rightarrow> [])"

definition contains :: "string \<Rightarrow> string \<Rightarrow> bool" where
  "contains s sub = sublist sub s"

definition id_or_class_contains :: "string \<Rightarrow> string \<Rightarrow> (string \<times> string) list \<Rightarrow> bool" where
  "id_or_class_contains v t a = (contains (attribute a ''class'') v \<or> contains (attribute a ''id'') v)"

definition img_src_contains :: "string \<Rightarrow> string \<Rightarrow> (string \<times> string) list \<Rightarrow> bool" where
  "img_src_contains v t a = (t = ''img'' \<and> contains (attribute a ''src'') v)"

text \<open>
  \<open>_drop_by_xpath\<close> calls \<open>drop_tree()\<close> on every result, in order. A result that is no
  node has no such method (\<open>AttributeError\<close>). \<open>drop_tree\<close> asserts that the element has
  a parent, so it fails (\<open>AssertionError\<close>) on the root of the document and on the top
  of a tree that has left it, the elements without a parent (the empty path), and the
  loop stops there. Any other element is taken out of the children of its parent
  with everything below it, whether it is below the node the scraper holds, beside
  it, or above it; an element below one that has been dropped is dropped from that
  one. \<open>drop_tree\<close> leaves the tail of the element where the element was, and the
  element keeps a copy. The paths all name nodes of the tree as it was when the
  expression was evaluated.

  \<open>remove_paths ps n\<close> is the tree \<open>n\<close> without the elements and comments at the paths
  \<open>ps\<close>. \<open>remove_located\<close> does the same around a located node. The siblings of the
  node and of the elements above it lose the selected nodes; the node loses those
  below it; when the node itself or an element above it is selected it leaves the
  document with what is below the lowest selected one, and the document is what the
  highest selected one was dropped from. Results in the document of a node that has
  left it are removed there.
\<close>

fun below :: "nat \<Rightarrow> path list \<Rightarrow> path list" where
  "below i [] = []"
| "below i ([] # ps) = below i ps"
| "below i ((j # p) # ps) = (if j = i then p # below i ps else below i ps)"

fun below_path :: "path \<Rightarrow> path list \<Rightarrow> path list" where
  "below_path [] ps = ps"
| "below_path (i # p) ps = below_path p (below i ps)"

fun remove_paths :: "path list \<Rightarrow> node \<Rightarrow> node"
  and remove_children :: "path list \<Rightarrow> nat \<Rightarrow> node list \<Rightarrow> node list" where
  "remove_paths ps (Element t a cs) = Element t a (remove_children ps 0 cs)"
| "remove_paths ps (Text s) = Text s"
| "remove_paths ps (Comment s) = Comment s"
| "remove_children ps i [] = []"
| "remove_children ps i (c # cs) =
     (if [i] \<in> set ps \<and> \<not> is_text c then remove_children ps (Suc i) cs
      else remove_paths (below i ps) c # remove_children ps (Suc i) cs)"

fun remove_around :: "path list \<Rightarrow> crumb list \<Rightarrow> crumb list" where
  "remove_around ps [] = []"
| "remove_around ps (Crumb l t a r # cs) =
     Crumb (remove_children ps 0 l) t a (remove_children ps (Suc (length l)) r)
       # remove_around (below (length l) ps) cs"

fun highest_cut :: "path list \<Rightarrow> crumb list \<Rightarrow> nat option" where
  "highest_cut ps [] = None"
| "highest_cut ps (Crumb l t a r # cs) =
     (if [length l] \<in> set ps then Some 0
      else map_option Suc (highest_cut (below (length l) ps) cs))"

fun lowest_cut :: "path list \<Rightarrow> crumb list \<Rightarrow> nat option" where
  "lowest_cut ps [] = None"
| "lowest_cut ps (Crumb l t a r # cs) =
     (case lowest_cut (below (length l) ps) cs of
        Some k \<Rightarrow> Some (Suc k)
      | None \<Rightarrow> if [length l] \<in> set ps then Some 0 else None)"

fun closed_list :: "crumb list \<Rightarrow> node list" where
  "closed_list [] = []"
| "closed_list (Crumb l t a r # cs) = [Element t a (l @ closed_list cs @ r)]"

definition closed :: "crumb list \<Rightarrow> node option" where
  "closed cs = (case closed_list cs of [d] \<Rightarrow> Some d | _ \<Rightarrow> None)"

definition remove_located :: "path list \<Rightarrow> path list \<Rightarrow> located \<Rightarrow> located" where
  "remove_located in_tree in_document st =
     (let ps = (case loc_document st of None \<Rightarrow> in_tree @ in_document | Some d \<Rightarrow> in_tree);
          around = remove_around ps (loc_above st);
          kept = remove_paths (below_path (position (loc_above st)) ps) (loc_node st)
      in case (highest_cut ps (loc_above st), lowest_cut ps (loc_above st)) of
           (Some i, Some j) \<Rightarrow>
             \<lparr>loc_tail = text_content_list (takeWhile is_text (siblings_after (loc_above st ! j))),
              loc_document =
                (case loc_document st of
                   None \<Rightarrow> closed (take (Suc i) around)
                 | Some d \<Rightarrow> Some (remove_paths in_document d)),
              loc_above = drop (Suc j) around, loc_node = kept\<rparr>
         | _ \<Rightarrow>
             \<lparr>loc_tail = loc_tail st,
              loc_document = map_option (remove_paths in_document) (loc_document st),
              loc_above = around, loc_node = kept\<rparr>)"

fun drop_tree_each :: "xpath_result list \<Rightarrow> py_exception + path list \<times> path list" where
  "drop_tree_each [] = Inr ([], [])"
| "drop_tree_each (NotANode # rs) = Inl (PyExc AttributeError ''drop_tree'')"
| "drop_tree_each (Selected p # rs) =
     (if p = [] then Inl (PyExc AssertionError [])
      else (case drop_tree_each rs of
              Inl e \<Rightarrow> Inl e
            | Inr (in_tree, in_document) \<Rightarrow> Inr (p # in_tree, in_document)))"
| "drop_tree_each (SelectedInDocument p # rs) =
     (if p = [] then Inl (PyExc AssertionError [])
      else (case drop_tree_each rs of
              Inl e \<Rightarrow> Inl e
            | Inr (in_tree, in_document) \<Rightarrow> Inr (in_tree, p # in_document)))"

definition drop_by_xpath :: "located \<Rightarrow> py_exception + xpath_result list \<Rightarrow> py_exception + located" where
  "drop_by_xpath etree selection =
     (case selection of
        Inl e \<Rightarrow> Inl e
      | Inr rs \<Rightarrow>
          (case drop_tree_each rs of
             Inl e \<Rightarrow> Inl e
           | Inr (in_tree, in_document) \<Rightarrow> Inr (remove_located in_tree in_document etree)))"

text \<open>
  The two expressions the scraper builds from a value of the rule set, which it has
  trimmed of spaces and quote characters at both ends. Both are absolute: whatever
  node they are evaluated on, they select in the whole document, from its root. On a
  node that is in the document, and for a plain value (printable ASCII characters,
  none a double quote), the expression is the one the template means and its result
  is \<open>select_elements\<close> on the tree of the node. A double quote in the value ends the
  string literal of the expression early, and \<open>format\<close> or lxml may refuse a character
  that is not ASCII or a control character: what is evaluated then, if anything, is
  left to the engine; so is the evaluation on a node that has left the document.
\<close>

definition quote :: char where
  "quote = CHR 0x22"

definition strip_quotes :: "string \<Rightarrow> string" where
  "strip_quotes s = strip_chars (\<lambda>c. c \<in> {CHR '' '', quote, CHR 0x27}) s"

definition plain :: "string \<Rightarrow> bool" where
  "plain v = list_all (\<lambda>c. c \<noteq> quote \<and> 32 \<le> (of_char c :: nat) \<and> (of_char c :: nat) < 127) v"

definition xpath_id_or_class :: "lxml \<Rightarrow> string \<Rightarrow> located \<Rightarrow> py_exception + xpath_result list" where
  "xpath_id_or_class lib v etree =
     (if plain v \<and> loc_document etree = None
      then Inr (map Selected (select_elements (id_or_class_contains v) (tree_of etree)))
      else lib_xpath lib (''//*[contains(@class,'' @ [quote] @ v @ [quote] @ '')] | //*[contains(@id,''
                           @ [quote] @ v @ [quote] @ '')]'') etree)"

definition xpath_img_src :: "lxml \<Rightarrow> string \<Rightarrow> located \<Rightarrow> py_exception + xpath_result list" where
  "xpath_img_src lib v etree =
     (if plain v \<and> loc_document etree = None
      then Inr (map Selected (select_elements (img_src_contains v) (tree_of etree)))
      else lib_xpath lib (''//img[contains(@src,'' @ [quote] @ v @ [quote] @ '')]'') etree)"

subsection \<open>The strip passes and the body\<close>

fun strip_nodes_loop :: "lxml \<Rightarrow> string list \<Rightarrow> located \<Rightarrow> py_exception + located" where
  "strip_nodes_loop lib [] etree = Inr etree"
| "strip_nodes_loop lib (xpath # xpaths) etree =
     (case drop_by_xpath etree (lib_xpath lib xpath etree) of
        Inl e \<Rightarrow> Inl e
      | Inr etree' \<Rightarrow> strip_nodes_loop lib xpaths etree')"

definition strip_nodes :: "lxml \<Rightarrow> sitespec \<Rightarrow> located \<Rightarrow> py_exception + located" where
  "strip_nodes lib spec etree = strip_nodes_loop lib (spec_values spec ''strip'') etree"

fun strip_id_or_class_loop :: "lxml \<Rightarrow> string list \<Rightarrow> located \<Rightarrow> py_exception + located" where
  "strip_id_or_class_loop lib [] etree = Inr etree"
| "strip_id_or_class_loop lib (id_or_class # rest) etree =
     (let v = strip_quotes id_or_class in
      case drop_by_xpath etree (xpath_id_or_class lib v etree) of
        Inl e \<Rightarrow> Inl e
      | Inr etree' \<Rightarrow> strip_id_or_class_loop lib rest etree')"

definition strip_id_or_class :: "lxml \<Rightarrow> sitespec \<Rightarrow> located \<Rightarrow> py_exception + located" where
  "strip_id_or_class lib spec etree =
     strip_id_or_class_loop lib (spec_values spec ''strip_id_or_class'') etree"

fun strip_image_src_loop :: "lxml \<Rightarrow> string list \<Rightarrow> located \<Rightarrow> py_exception + located" where
  "strip_image_src_loop lib [] etree = Inr etree"
| "strip_image_src_loop lib (substr # rest) etree =
     (let v = strip_quotes substr in
      case drop_by_xpath etree (xpath_img_src lib v etree) of
        Inl e \<Rightarrow> Inl e
      | Inr etree' \<Rightarrow> strip_image_src_loop lib rest etree')"

definition strip_image_src :: "lxml \<Rightarrow> sitespec \<Rightarrow> located \<Rightarrow> py_exception + located" where
  "strip_image_src lib spec etree =
     strip_image_src_loop lib (spec_values spec ''strip_image_src'') etree"

text \<open>The four passes of \<open>clean_article\<close> on the body, in the order of the code.\<close>

definition body_passes :: "lxml \<Rightarrow> sitespec \<Rightarrow> located \<Rightarrow> py_exception + located" where
  "body_passes lib spec body0 =
     (case strip_nodes lib spec body0 of
        Inl e \<Rightarrow> Inl e
      | Inr body1 \<Rightarrow>
          (case strip_id_or_class lib spec body1 of
             Inl e \<Rightarrow> Inl e
           | Inr body2 \<Rightarrow>
               (case strip_image_src lib spec body2 of
                  Inl e \<Rightarrow> Inl e
                | Inr body3 \<Rightarrow>
                    Inr (body3\<lparr>loc_node := maybe_prune lib spec (loc_node body3) (1/2)\<rparr>))))"

subsection \<open>clean_article\<close>

text \<open>
  \<open>html.fromstring\<close> and \<open>clean_html\<close> (which parses its argument with \<open>fromstring\<close>
  first) raise \<open>ParserError: Document is empty\<close> on the empty string. What
  \<open>html.fromstring\<close> returns is the root of the document or, for a fragment, an element
  below the \<open>html\<close> and \<open>body\<close> elements the parser has put around it.
\<close>

definition html_fromstring :: "lxml \<Rightarrow> string \<Rightarrow> py_exception + located" where
  "html_fromstring lib source =
     (if source = [] then Inl (PyExc ParserError ''Document is empty'')
      else (case lib_parse lib source of
              Inl e \<Rightarrow> Inl e
            | Inr (crumbs, n) \<Rightarrow> Inr \<lparr>loc_tail = [], loc_document = None, loc_above = crumbs, loc_node = n\<rparr>))"

definition clean_html :: "lxml \<Rightarrow> string \<Rightarrow> py_exception + string" where
  "clean_html lib source =
     (if source = [] then Inl (PyExc ParserError ''Document is empty'') else lib_clean lib source)"

definition maybe_clean :: "lxml \<Rightarrow> sitespec \<Rightarrow> string \<Rightarrow> py_exception + string" where
  "maybe_clean lib spec source =
     (if spec_is_not_False spec ''lxml_clean'' then clean_html lib source else Inr source)"

text \<open>
  \<open>_extract_first\<close> evaluates the expressions of a directive until one selects
  something and takes its first item; \<open>extract_fields\<close> is the loop of \<open>clean_article\<close>
  over \<open>date\<close>, \<open>title\<close> and \<open>footnotes\<close>. \<open>_extract_all\<close> yields every item of every
  expression; \<open>extract_authors\<close> is that generator together with the loop of
  \<open>clean_article\<close> that reads the text of each item as it is yielded.
  \<open>n.text_content().strip()\<close> needs a node; on a comment it gives the text of the
  comment. A text is held in the result, whose values are strings, as its UTF-8
  bytes.
\<close>

fun node_at :: "node \<Rightarrow> path \<Rightarrow> node option" where
  "node_at n [] = Some n"
| "node_at (Element t a cs) (i # p) = (if i < length cs then node_at (cs ! i) p else None)"
| "node_at (Text s) (i # p) = None"
| "node_at (Comment s) (i # p) = None"

fun locate :: "node \<Rightarrow> path \<Rightarrow> (crumb list \<times> node) option" where
  "locate n [] = Some ([], n)"
| "locate (Element t a cs) (i # p) =
     (if i < length cs then
        (case locate (cs ! i) p of
           None \<Rightarrow> None
         | Some (crumbs, n) \<Rightarrow> Some (Crumb (take i cs) t a (drop (Suc i) cs) # crumbs, n))
      else None)"
| "locate (Text s) (i # p) = None"
| "locate (Comment s) (i # p) = None"

definition utf8_char :: "nat \<Rightarrow> string" where
  "utf8_char c =
     (if c < 128 then [char_of c]
      else if c < 2048 then [char_of (192 + c div 64), char_of (128 + c mod 64)]
      else if c < 65536 then
        [char_of (224 + c div 4096), char_of (128 + (c div 64) mod 64), char_of (128 + c mod 64)]
      else
        [char_of (240 + c div 262144), char_of (128 + (c div 4096) mod 64),
         char_of (128 + (c div 64) mod 64), char_of (128 + c mod 64)])"

definition utf8 :: "unicode \<Rightarrow> string" where
  "utf8 s = concat (map utf8_char s)"

fun extract_first :: "lxml \<Rightarrow> string list \<Rightarrow> located \<Rightarrow> py_exception + xpath_result option" where
  "extract_first lib [] etree = Inr None"
| "extract_first lib (xpath # xpaths) etree =
     (case lib_xpath lib xpath etree of
        Inl e \<Rightarrow> Inl e
      | Inr [] \<Rightarrow> extract_first lib xpaths etree
      | Inr (n # ns) \<Rightarrow> Inr (Some n))"

definition result_node :: "located \<Rightarrow> xpath_result \<Rightarrow> node option" where
  "result_node etree r =
     (case r of
        Selected p \<Rightarrow> node_at (tree_of etree) p
      | SelectedInDocument p \<Rightarrow> node_at (document_of etree) p
      | NotANode \<Rightarrow> None)"

definition stripped_text :: "lxml \<Rightarrow> located \<Rightarrow> xpath_result \<Rightarrow> py_exception + string" where
  "stripped_text lib etree r =
     (case result_node etree r of
        None \<Rightarrow> Inl (PyExc AttributeError ''text_content'')
      | Some (Comment s) \<Rightarrow> Inr (utf8 (py_strip lib s))
      | Some n \<Rightarrow> Inr (utf8 (py_strip lib (text_content n))))"

fun extract_fields :: "lxml \<Rightarrow> sitespec \<Rightarrow> string list \<Rightarrow> located \<Rightarrow> article \<Rightarrow> py_exception + article" where
  "extract_fields lib spec [] etree result = Inr result"
| "extract_fields lib spec (c # cs) etree result =
     (case extract_first lib (spec_values spec c) etree of
        Inl e \<Rightarrow> Inl e
      | Inr None \<Rightarrow> extract_fields lib spec cs etree result
      | Inr (Some n) \<Rightarrow>
          (case stripped_text lib etree n of
             Inl e \<Rightarrow> Inl e
           | Inr txt \<Rightarrow> extract_fields lib spec cs etree (AList.update c txt result)))"

fun stripped_texts :: "lxml \<Rightarrow> located \<Rightarrow> xpath_result list \<Rightarrow> py_exception + string list" where
  "stripped_texts lib etree [] = Inr []"
| "stripped_texts lib etree (n # ns) =
     (case stripped_text lib etree n of
        Inl e \<Rightarrow> Inl e
      | Inr txt \<Rightarrow>
          (case stripped_texts lib etree ns of Inl e \<Rightarrow> Inl e | Inr txts \<Rightarrow> Inr (txt # txts)))"

fun extract_authors :: "lxml \<Rightarrow> string list \<Rightarrow> located \<Rightarrow> py_exception + string list" where
  "extract_authors lib [] etree = Inr []"
| "extract_authors lib (xpath # xpaths) etree =
     (case lib_xpath lib xpath etree of
        Inl e \<Rightarrow> Inl e
      | Inr ns \<Rightarrow>
          (case stripped_texts lib etree ns of
             Inl e \<Rightarrow> Inl e
           | Inr txts \<Rightarrow>
               (case extract_authors lib xpaths etree of
                  Inl e \<Rightarrow> Inl e
                | Inr rest \<Rightarrow> Inr (txts @ rest))))"

fun join :: "string \<Rightarrow> string list \<Rightarrow> string" where
  "join sep [] = []"
| "join sep [x] = x"
| "join sep (x # y # ys) = x @ sep @ join sep (y # ys)"

text \<open>
  The body is the node the \<open>body\<close> directive selects, where it is in its tree, or the
  node \<open>html.fromstring\<close> returned. A body that is no node fails in the first pass that
  touches it, or in \<open>html.tostring\<close>.
\<close>

definition select_body :: "sitespec \<Rightarrow> located \<Rightarrow> xpath_result option \<Rightarrow> py_exception + located" where
  "select_body spec etree maybe_body =
     (case maybe_body of
        None \<Rightarrow> Inr etree
      | Some (Selected p) \<Rightarrow>
          (case locate (tree_of etree) p of
             None \<Rightarrow> Inl (PyExc AttributeError ''xpath'')
           | Some (crumbs, n) \<Rightarrow>
               Inr \<lparr>loc_tail = loc_tail etree, loc_document = loc_document etree,
                    loc_above = crumbs, loc_node = n\<rparr>)
      | Some (SelectedInDocument p) \<Rightarrow>
          (case locate (document_of etree) p of
             None \<Rightarrow> Inl (PyExc AttributeError ''xpath'')
           | Some (crumbs, n) \<Rightarrow>
               Inr \<lparr>loc_tail = (case loc_document etree of None \<Rightarrow> loc_tail etree | Some d \<Rightarrow> []),
                    loc_document = None, loc_above = crumbs, loc_node = n\<rparr>)
      | Some NotANode \<Rightarrow>
          (if spec_values spec ''strip'' \<noteq> [] \<or> spec_values spec ''strip_id_or_class'' \<noteq> []
              \<or> spec_values spec ''strip_image_src'' \<noteq> [] \<or> spec_is_not_False spec ''prune''
           then Inl (PyExc AttributeError ''xpath'')
           else Inl (PyExc TypeError ''tostring'')))"

definition clean_article :: "lxml \<Rightarrow> sitespec \<Rightarrow> string \<Rightarrow> py_exception + article" where
  "clean_article lib spec source =
     (case maybe_clean lib spec (find_replace spec source) of
        Inl e \<Rightarrow> Inl e
      | Inr cleaned \<Rightarrow>
     (case html_fromstring lib cleaned of
        Inl e \<Rightarrow> Inl e
      | Inr etree \<Rightarrow>
     (case extract_fields lib spec [''date'', ''title'', ''footnotes''] etree [] of
        Inl e \<Rightarrow> Inl e
      | Inr result \<Rightarrow>
     (case extract_authors lib (spec_values spec ''author'') etree of
        Inl e \<Rightarrow> Inl e
      | Inr authors \<Rightarrow>
     (case extract_first lib (spec_values spec ''body'') etree of
        Inl e \<Rightarrow> Inl e
      | Inr maybe_body \<Rightarrow>
     (case select_body spec etree maybe_body of
        Inl e \<Rightarrow> Inl e
      | Inr body0 \<Rightarrow>
     (case body_passes lib spec body0 of
        Inl e \<Rightarrow> Inl e
      | Inr body' \<Rightarrow>
          Inr (AList.update ''html'' (lib_tostring lib body')
                 (AList.update ''authors'' (join '', '' authors) result)))))))))"

subsection \<open>Deleting only\<close>

text \<open>
  \<open>deleted_from n' n\<close>: the tree \<open>n'\<close> is \<open>n\<close> with some elements or comments taken out,
  each with everything below it. Whatever stays has its tag, its attributes, its
  character data and its place among the nodes that stay. \<open>drop_where P\<close> takes out
  every element below the root whose tag and attributes satisfy \<open>P\<close>.
\<close>

inductive deleted_from :: "node \<Rightarrow> node \<Rightarrow> bool"
  and deleted_from_list :: "node list \<Rightarrow> node list \<Rightarrow> bool" where
  same_text: "deleted_from (Text s) (Text s)"
| same_comment: "deleted_from (Comment s) (Comment s)"
| same_element: "deleted_from_list cs' cs \<Longrightarrow> deleted_from (Element t a cs') (Element t a cs)"
| no_children: "deleted_from_list [] []"
| keep_child: "deleted_from c' c \<Longrightarrow> deleted_from_list cs' cs \<Longrightarrow> deleted_from_list (c' # cs') (c # cs)"
| drop_child: "\<not> is_text c \<Longrightarrow> deleted_from_list cs' cs \<Longrightarrow> deleted_from_list cs' (c # cs)"

code_pred deleted_from .

fun drop_where :: "(string \<Rightarrow> (string \<times> string) list \<Rightarrow> bool) \<Rightarrow> node \<Rightarrow> node"
  and drop_where_list :: "(string \<Rightarrow> (string \<times> string) list \<Rightarrow> bool) \<Rightarrow> node list \<Rightarrow> node list" where
  "drop_where P (Element t a cs) = Element t a (drop_where_list P cs)"
| "drop_where P (Text s) = Text s"
| "drop_where P (Comment s) = Comment s"
| "drop_where_list P [] = []"
| "drop_where_list P (c # cs) =
     (case c of
        Element t a kids \<Rightarrow>
          (if P t a then drop_where_list P cs else drop_where P c # drop_where_list P cs)
      | n \<Rightarrow> n # drop_where_list P cs)"

subsection \<open>Concrete documents and rule sets\<close>

text \<open>
  For the examples: a part of the two tables of the Unicode database beyond 255 (the
  spaces from the en quad 8192 to the hair space 8202 and the ideographic space
  12288; the Greek letters from alpha 945 to omega 969), a library without parser and
  engine, a page with its body in the middle of the document, a fragment with the
  \<open>html\<close> and \<open>body\<close> elements of the parser above it, and a page whose root has a class.
\<close>

definition example_isspace :: "nat \<Rightarrow> bool" where
  "example_isspace c = ((8192 \<le> c \<and> c \<le> 8202) \<or> c = 12288)"

definition example_isalnum :: "nat \<Rightarrow> bool" where
  "example_isalnum c = (945 \<le> c \<and> c \<le> 969)"

definition no_lib :: lxml where
  "no_lib = \<lparr>lib_parse = (\<lambda>s. Inl (PyExc ParserError [])), lib_clean = (\<lambda>s. Inr s),
     lib_xpath = (\<lambda>x t. Inl (PyExc XPathEvalError ''Invalid expression'')), lib_tostring = (\<lambda>n. []),
     lib_isspace = example_isspace, lib_isalnum = example_isalnum\<rparr>"

definition example_content :: node where
  "example_content =
     Element ''div'' [(''id'', ''content'')]
       [Text (ustr ''a''),
        Element ''div'' [(''class'', ''notclass1'')] [Element ''p'' [] [Text (ustr ''ad'')]],
        Text (ustr ''b''),
        Element ''p'' [(''class'', ''keep'')]
          [Text (ustr ''text''), Element ''img'' [(''src'', ''http://ads/x.png'')] []],
        Element ''span'' [(''id'', ''myclass12'')] [],
        Element ''p'' [] [Text (ustr ''@@@'')]]"

definition example_doc :: node where
  "example_doc =
     Element ''html'' []
       [Element ''head'' [] [Element ''title'' [] [Text (ustr ''T'')]],
        Element ''body'' [(''class'', ''page'')]
          [Element ''div'' [(''id'', ''side class1'')] [Text (ustr ''links'')],
           example_content,
           Text (ustr ''footer'')]]"

definition example_body :: located where
  "example_body =
     \<lparr>loc_tail = [], loc_document = None,
      loc_above =
        [Crumb [Element ''head'' [] [Element ''title'' [] [Text (ustr ''T'')]]] ''html'' [] [],
         Crumb [Element ''div'' [(''id'', ''side class1'')] [Text (ustr ''links'')]]
           ''body'' [(''class'', ''page'')] [Text (ustr ''footer'')]],
      loc_node = example_content\<rparr>"

definition example_spec :: sitespec where
  "example_spec = [(''strip_id_or_class'', Values [[quote] @ ''class1'' @ [quote]])]"

definition example_lib :: lxml where
  "example_lib =
     \<lparr>lib_parse = (\<lambda>s. Inr ([], example_doc)), lib_clean = (\<lambda>s. Inr s),
      lib_xpath = (\<lambda>x t. if x = ''//span''
                          then Inr (map Selected (select_elements (\<lambda>t a. t = ''span'') (tree_of t)))
                        else if x = ''//body/div[2]'' then Inr [Selected [1, 1]]
                        else Inl (PyExc XPathEvalError ''Invalid expression'')),
      lib_tostring = (\<lambda>t. utf8 (text_content (loc_node t))),
      lib_isspace = example_isspace, lib_isalnum = example_isalnum\<rparr>"

definition strip_all_spec :: sitespec where
  "strip_all_spec =
     [(''strip'', Values [''//span'']), (''strip_id_or_class'', Values [''class1'']),
      (''strip_image_src'', Values [''ads/''])]"

definition fragment :: located where
  "fragment =
     \<lparr>loc_tail = [], loc_document = None,
      loc_above =
        [Crumb [] ''html'' [] [],
         Crumb [Text (ustr ''x'')] ''body'' []
           [Text (ustr ''y''), Element ''p'' [(''class'', ''main2'')] []]],
      loc_node =
        Element ''div'' [(''class'', ''main'')]
          [Text (ustr ''a''), Element ''p'' [(''id'', ''xmain'')] [Text (ustr ''ad'')],
           Element ''p'' [] [Text (ustr ''hello'')]]\<rparr>"

definition root_class_doc :: node where
  "root_class_doc =
     Element ''html'' [(''class'', ''notclass1'')] [Element ''body'' [] [Text (ustr ''x'')]]"

definition root_class_spec :: sitespec where
  "root_class_spec = [(''lxml_clean'', Flag False), (''strip_id_or_class'', Values [''class1''])]"

definition root_class_lib :: lxml where
  "root_class_lib = no_lib\<lparr>lib_parse := (\<lambda>s. Inr ([], root_class_doc))\<rparr>"

definition quoted_value_spec :: sitespec where
  "quoted_value_spec = [(''strip_id_or_class'', Values [''a'' @ [quote] @ ''b''])]"

definition quoted_value_doc :: located where
  "quoted_value_doc =
     \<lparr>loc_tail = [], loc_document = None, loc_above = [],
      loc_node = Element ''html'' []
        [Element ''body'' [] [Element ''p'' [(''class'', ''a'' @ [quote] @ ''b'')] []]]\<rparr>"

definition title_spec :: sitespec where
  "title_spec = [(''title'', Values [''//h1''])]"

subsection \<open>Facts about the passes\<close>

inductive_cases deleted_from_TextE: "deleted_from n (Text s)"
inductive_cases deleted_from_CommentE: "deleted_from n (Comment s)"
inductive_cases deleted_from_ElementE: "deleted_from n (Element t a cs)"
inductive_cases deleted_from_list_NilE: "deleted_from_list cs' []"
inductive_cases deleted_from_list_ConsE: "deleted_from_list cs' (c # cs)"

lemma deleted_from_refl: "deleted_from n n" and deleted_from_list_refl: "deleted_from_list cs cs"
  by (induction n and cs rule: text_content_text_content_list.induct)
     (auto intro: deleted_from_deleted_from_list.intros)

lemma deleted_from_is_text: "deleted_from n' n \<Longrightarrow> is_text n' = is_text n"
  by (cases rule: deleted_from.cases) auto

lemma deleted_from_trans_aux:
  "(deleted_from b c \<longrightarrow> (\<forall>a. deleted_from a b \<longrightarrow> deleted_from a c))
   \<and> (deleted_from_list bs cs \<longrightarrow> (\<forall>as. deleted_from_list as bs \<longrightarrow> deleted_from_list as cs))"
proof (induction rule: deleted_from_deleted_from_list.induct)
  case (same_text s)
  then show ?case by blast
next
  case (same_comment s)
  then show ?case by blast
next
  case (same_element cs' cs t a)
  show ?case
  proof (intro allI impI)
    fix x assume "deleted_from x (Element t a cs')"
    then obtain xs where "x = Element t a xs" "deleted_from_list xs cs'"
      by (auto elim: deleted_from_ElementE)
    then show "deleted_from x (Element t a cs)"
      using same_element.IH by (auto intro: deleted_from_deleted_from_list.same_element)
  qed
next
  case no_children
  then show ?case by blast
next
  case (keep_child c' c cs' cs)
  show ?case
  proof (intro allI impI)
    fix xs assume xs: "deleted_from_list xs (c' # cs')"
    from xs consider (keep) x xs' where "xs = x # xs'" "deleted_from x c'" "deleted_from_list xs' cs'"
      | (drop) "\<not> is_text c'" "deleted_from_list xs cs'"
      by (auto elim: deleted_from_list_ConsE)
    then show "deleted_from_list xs (c # cs)"
    proof cases
      case keep
      then show ?thesis
        using keep_child.IH by (auto intro: deleted_from_deleted_from_list.keep_child)
    next
      case drop
      have "\<not> is_text c"
        using drop(1) deleted_from_is_text [OF keep_child.hyps(1)] by simp
      then show ?thesis
        using drop(2) keep_child.IH by (auto intro: deleted_from_deleted_from_list.drop_child)
    qed
  qed
next
  case (drop_child c cs' cs)
  then show ?case by (auto intro: deleted_from_deleted_from_list.drop_child)
qed

lemma deleted_from_trans: "deleted_from a b \<Longrightarrow> deleted_from b c \<Longrightarrow> deleted_from a c"
  using deleted_from_trans_aux by blast

lemma remove_paths_deleted:
  "deleted_from (remove_paths ps n) n"
  and remove_children_deleted: "deleted_from_list (remove_children ps i cs) cs"
  by (induction ps n and ps i cs rule: remove_paths_remove_children.induct)
     (auto intro: deleted_from_deleted_from_list.intros)

lemma prune_element_deleted:
  "prune_element lib limit n = Some n' \<Longrightarrow> deleted_from n' n"
  and prune_children_deleted: "deleted_from_list (prune_children lib limit cs) cs"
proof (induction lib limit n and lib limit cs arbitrary: n' rule: prune_element_prune_children.induct)
  case (1 lib special_limit t a cs)
  then show ?case
    by (auto simp: Let_def split: if_splits intro: deleted_from_deleted_from_list.intros)
next
  case (2 lib special_limit s)
  then show ?case by (auto intro: deleted_from_deleted_from_list.intros)
next
  case (3 lib special_limit s)
  then show ?case by (auto intro: deleted_from_deleted_from_list.intros)
next
  case (4 lib special_limit)
  then show ?case by (auto intro: deleted_from_deleted_from_list.intros)
next
  case (5 lib special_limit c cs)
  show ?case
  proof (cases "is_element c")
    case True
    then have nt: "\<not> is_text c" by (cases c) auto
    show ?thesis
    proof (cases "prune_element lib special_limit c")
      case None
      then show ?thesis
        using True nt 5(2) by (auto intro: deleted_from_deleted_from_list.drop_child)
    next
      case (Some c')
      then show ?thesis
        using True 5(1,3) by (auto intro: deleted_from_deleted_from_list.keep_child)
    qed
  next
    case False
    then show ?thesis
      using 5(4) by (auto intro: deleted_from_deleted_from_list.keep_child deleted_from_refl)
  qed
qed

lemma prune_children_concat:
  "prune_children lib limit cs =
     concat (map (\<lambda>c. if is_element c
                       then (case prune_element lib limit c of None \<Rightarrow> [] | Some c' \<Rightarrow> [c'])
                       else [c]) cs)"
  by (induction cs) (auto split: option.splits)

lemma count_classes:
  assumes "\<forall>c \<in> set s. \<not> (P c \<and> Q c)"
  shows "int (length s) - int (length (filter P s)) - int (length (filter Q s))
           = int (length (filter (\<lambda>c. \<not> Q c \<and> \<not> P c) s))"
  using assms by (induction s) auto

lemma count_bound:
  "0 \<le> int (length s) - int (length (filter P s))"
  by (simp add: length_filter_le)

lemma ratio_above_half:
  fixes s n :: int
  assumes "0 < s + n"
  shows "(real_of_int s / real_of_int (s + n) > 1 / 2) = (n < s)"
proof -
  have pos: "0 < real_of_int (s + n)" using assms by simp
  have "(1 / 2 < real_of_int s / real_of_int (s + n)) = (1 / 2 * real_of_int (s + n) < real_of_int s)"
    using pos by (simp only: pos_less_divide_eq)
  also have "\<dots> = (real_of_int (s + n) < 2 * real_of_int s)" by auto
  also have "\<dots> = (real_of_int n < real_of_int s)" by auto
  also have "\<dots> = (n < s)" by simp
  finally show ?thesis .
qed

lemma select_children_iff:
  "q \<in> set (select_children P i cs) \<longleftrightarrow>
     (\<exists>k p. q = (i + k) # p \<and> k < length cs \<and> p \<in> set (select_elements P (cs ! k)))"
proof (induction cs arbitrary: i)
  case Nil
  then show ?case by simp
next
  case (Cons c cs)
  show ?case
  proof
    assume "q \<in> set (select_children P i (c # cs))"
    then consider (here) p where "q = i # p" "p \<in> set (select_elements P c)"
      | (later) "q \<in> set (select_children P (Suc i) cs)" by auto
    then show "\<exists>k p. q = (i + k) # p \<and> k < length (c # cs) \<and> p \<in> set (select_elements P ((c # cs) ! k))"
    proof cases
      case here
      then have "q = (i + 0) # p \<and> 0 < length (c # cs) \<and> p \<in> set (select_elements P ((c # cs) ! 0))"
        by simp
      then show ?thesis by blast
    next
      case later
      then obtain k p where "q = (Suc i + k) # p" "k < length cs" "p \<in> set (select_elements P (cs ! k))"
        using Cons.IH by blast
      then have "q = (i + Suc k) # p \<and> Suc k < length (c # cs) \<and> p \<in> set (select_elements P ((c # cs) ! Suc k))"
        by simp
      then show ?thesis by blast
    qed
  next
    assume "\<exists>k p. q = (i + k) # p \<and> k < length (c # cs) \<and> p \<in> set (select_elements P ((c # cs) ! k))"
    then obtain k p where kp: "q = (i + k) # p" "k < length (c # cs)" "p \<in> set (select_elements P ((c # cs) ! k))"
      by blast
    show "q \<in> set (select_children P i (c # cs))"
    proof (cases k)
      case 0
      then show ?thesis using kp by simp
    next
      case (Suc j)
      then have "q = (Suc i + j) # p \<and> j < length cs \<and> p \<in> set (select_elements P (cs ! j))"
        using kp by simp
      then have "q \<in> set (select_children P (Suc i) cs)"
        using Cons.IH by blast
      then show ?thesis by simp
    qed
  qed
qed

lemma below_iff: "p \<in> set (below i ps) \<longleftrightarrow> i # p \<in> set ps"
  by (induction i ps rule: below.induct) auto

lemma below_path_iff: "p \<in> set (below_path q ps) \<longleftrightarrow> q @ p \<in> set ps"
  by (induction q ps rule: below_path.induct) (auto simp: below_iff)

lemma select_root_iff:
  "[] \<in> set (select_elements P c) \<longleftrightarrow> (\<exists>t a cs. c = Element t a cs \<and> P t a)"
  by (cases c) (auto simp: select_children_iff)

lemma remove_selected:
  "(\<forall>p. p \<in> set ps \<longleftrightarrow> p \<in> set (select_elements P n)) \<Longrightarrow>
     remove_paths ps n = drop_where P n"
  and remove_selected_children:
  "(\<forall>k p. k < length cs \<longrightarrow> ((i + k) # p \<in> set ps \<longleftrightarrow> p \<in> set (select_elements P (cs ! k)))) \<Longrightarrow>
     remove_children ps i cs = drop_where_list P cs"
proof (induction ps n and ps i cs rule: remove_paths_remove_children.induct)
  case (1 ps t a cs)
  have "\<forall>k p. k < length cs \<longrightarrow> ((0 + k) # p \<in> set ps \<longleftrightarrow> p \<in> set (select_elements P (cs ! k)))"
  proof (intro allI impI)
    fix k p assume k: "k < length cs"
    have "(0 + k) # p \<in> set ps \<longleftrightarrow> k # p \<in> set (select_children P 0 cs)"
      using 1(2) by simp
    also have "\<dots> \<longleftrightarrow> p \<in> set (select_elements P (cs ! k))"
      using k by (auto simp: select_children_iff)
    finally show "(0 + k) # p \<in> set ps \<longleftrightarrow> p \<in> set (select_elements P (cs ! k))" .
  qed
  then show ?case using 1(1) by simp
next
  case (2 ps s)
  then show ?case by simp
next
  case (3 ps s)
  then show ?case by simp
next
  case (4 ps i)
  then show ?case by simp
next
  case (5 ps i c cs)
  have here: "\<And>p. i # p \<in> set ps \<longleftrightarrow> p \<in> set (select_elements P c)"
    using 5(4) [rule_format, of 0] by simp
  have rest: "\<forall>k p. k < length cs \<longrightarrow> ((Suc i + k) # p \<in> set ps \<longleftrightarrow> p \<in> set (select_elements P (cs ! k)))"
  proof (intro allI impI)
    fix k p assume "k < length cs"
    then show "(Suc i + k) # p \<in> set ps \<longleftrightarrow> p \<in> set (select_elements P (cs ! k))"
      using 5(4) [rule_format, of "Suc k" p] by simp
  qed
  have root: "[i] \<in> set ps \<longleftrightarrow> (\<exists>t a kids. c = Element t a kids \<and> P t a)"
    using here [of "[]"] select_root_iff [of P c] by simp
  show ?case
  proof (cases "[i] \<in> set ps \<and> \<not> is_text c")
    case True
    then obtain t a kids where c: "c = Element t a kids" "P t a" using root by blast
    have "remove_children ps (Suc i) cs = drop_where_list P cs"
      using 5(1) [OF True rest] .
    then show ?thesis using True c by simp
  next
    case False
    have nroot: "[i] \<notin> set ps"
      using False root by (cases c) auto
    have a: "\<forall>p. p \<in> set (below i ps) \<longleftrightarrow> p \<in> set (select_elements P c)"
      using here by (simp add: below_iff)
    have c1: "remove_paths (below i ps) c = drop_where P c"
      using 5(2) [OF False a] .
    have c2: "remove_children ps (Suc i) cs = drop_where_list P cs"
      using 5(3) [OF False rest] .
    have np: "\<And>t a kids. c = Element t a kids \<Longrightarrow> \<not> P t a"
      using nroot root by blast
    show ?thesis
      using False c1 c2 np by (cases c) auto
  qed
qed

lemma select_plug:
  "position crumbs @ p \<in> set (select_elements P (plug crumbs n)) \<longleftrightarrow> p \<in> set (select_elements P n)"
proof (induction crumbs)
  case Nil
  then show ?case by (simp add: position_def)
next
  case (Cons c crumbs)
  obtain l t a r where c: "c = Crumb l t a r" by (cases c)
  have "position (c # crumbs) @ p \<in> set (select_elements P (plug (c # crumbs) n))
      \<longleftrightarrow> length l # (position crumbs @ p) \<in> set (select_children P 0 (l @ plug crumbs n # r))"
    unfolding c by (auto simp: position_def)
  also have "\<dots> \<longleftrightarrow> position crumbs @ p \<in> set (select_elements P (plug crumbs n))"
    by (auto simp: select_children_iff nth_append)
  finally show ?case using Cons.IH by simp
qed

lemma drop_tree_each_selected:
  "drop_tree_each (map Selected ps) =
     (if [] \<in> set ps then Inl (PyExc AssertionError []) else Inr (ps, []))"
  by (induction ps) auto

lemma loc_node_remove_located:
  "\<exists>ps. loc_node (remove_located in_tree in_document st) = remove_paths ps (loc_node st)"
  by (auto simp: remove_located_def Let_def split: option.splits prod.splits)

lemma deleted_from_elements:
  "(deleted_from n' n \<longrightarrow> subseq (elements n') (elements n))
   \<and> (deleted_from_list cs' cs \<longrightarrow> subseq (elements_list cs') (elements_list cs))"
proof (induction rule: deleted_from_deleted_from_list.induct)
  case (keep_child c' c cs' cs)
  then show ?case by (simp add: list_emb_append_mono)
next
  case (drop_child c cs' cs)
  then show ?case by (simp add: list_emb_append2)
qed simp_all

lemma drop_where_clean:
  "(\<And>t a kids. n = Element t a kids \<Longrightarrow> \<not> P t a) \<Longrightarrow>
     \<forall>e \<in> set (elements (drop_where P n)). \<not> P (fst e) (snd e)"
  and drop_where_list_clean:
  "\<forall>e \<in> set (elements_list (drop_where_list P cs)). \<not> P (fst e) (snd e)"
proof (induction P n and P cs rule: drop_where_drop_where_list.induct)
  case (5 P c cs)
  show ?case
  proof (cases c)
    case (Element t a kids)
    show ?thesis
    proof (cases "P t a")
      case True
      then show ?thesis using Element 5(1) by simp
    next
      case False
      have "\<forall>e \<in> set (elements (drop_where P c)). \<not> P (fst e) (snd e)"
        using 5(2) [OF Element False] Element False by blast
      then show ?thesis using Element False 5(3) [OF Element False] by auto
    qed
  next
    case (Text s)
    then show ?thesis using 5(4) by simp
  next
    case (Comment s)
    then show ?thesis using 5(5) by simp
  qed
qed auto

lemma drop_by_xpath_deleted:
  "drop_by_xpath etree sel = Inr etree' \<Longrightarrow> deleted_from (loc_node etree') (loc_node etree)"
proof -
  assume "drop_by_xpath etree sel = Inr etree'"
  then obtain in_tree in_document where "etree' = remove_located in_tree in_document etree"
    by (auto simp: drop_by_xpath_def split: sum.splits prod.splits)
  then show ?thesis
    using loc_node_remove_located [of in_tree in_document etree] remove_paths_deleted by auto
qed

lemma strip_nodes_loop_deleted:
  "strip_nodes_loop lib xs etree = Inr etree' \<Longrightarrow> deleted_from (loc_node etree') (loc_node etree)"
proof (induction xs arbitrary: etree)
  case Nil
  then show ?case by (simp add: deleted_from_refl)
next
  case (Cons x xs)
  then obtain mid where m: "drop_by_xpath etree (lib_xpath lib x etree) = Inr mid"
    "strip_nodes_loop lib xs mid = Inr etree'"
    by (auto split: sum.splits)
  show ?case
    using deleted_from_trans [OF Cons.IH [OF m(2)] drop_by_xpath_deleted [OF m(1)]] .
qed

lemma strip_id_or_class_loop_deleted:
  "strip_id_or_class_loop lib vs etree = Inr etree' \<Longrightarrow> deleted_from (loc_node etree') (loc_node etree)"
proof (induction vs arbitrary: etree)
  case Nil
  then show ?case by (simp add: deleted_from_refl)
next
  case (Cons v vs)
  then obtain mid where m: "drop_by_xpath etree (xpath_id_or_class lib (strip_quotes v) etree) = Inr mid"
    "strip_id_or_class_loop lib vs mid = Inr etree'"
    by (auto simp: Let_def split: sum.splits)
  show ?case
    using deleted_from_trans [OF Cons.IH [OF m(2)] drop_by_xpath_deleted [OF m(1)]] .
qed

lemma strip_image_src_loop_deleted:
  "strip_image_src_loop lib vs etree = Inr etree' \<Longrightarrow> deleted_from (loc_node etree') (loc_node etree)"
proof (induction vs arbitrary: etree)
  case Nil
  then show ?case by (simp add: deleted_from_refl)
next
  case (Cons v vs)
  then obtain mid where m: "drop_by_xpath etree (xpath_img_src lib (strip_quotes v) etree) = Inr mid"
    "strip_image_src_loop lib vs mid = Inr etree'"
    by (auto simp: Let_def split: sum.splits)
  show ?case
    using deleted_from_trans [OF Cons.IH [OF m(2)] drop_by_xpath_deleted [OF m(1)]] .
qed

lemma maybe_prune_deleted: "deleted_from (maybe_prune lib spec elem special_limit) elem"
  by (cases elem)
     (auto simp: maybe_prune_def deleted_from_refl prune_children_deleted
           intro: deleted_from_deleted_from_list.same_element)

lemma find_replace_loop_empty:
  "\<forall>p \<in> set pairs. fst p \<noteq> [] \<Longrightarrow> find_replace_loop pairs [] = []"
  by (induction pairs) (auto simp: str_replace_def)

lemma root_plug:
  "[] \<in> set (select_elements P (plug crumbs n)) \<longleftrightarrow>
     (case crumbs of
        [] \<Rightarrow> [] \<in> set (select_elements P n)
      | c # cs \<Rightarrow> P (crumb_tag c) (crumb_attrib c))"
proof (cases crumbs)
  case Nil
  then show ?thesis by simp
next
  case (Cons c cs)
  obtain l t a r where c: "c = Crumb l t a r" by (cases c)
  show ?thesis unfolding Cons c by (auto simp: select_children_iff)
qed

lemma no_cut:
  assumes "\<forall>p. p \<in> set ps \<longleftrightarrow> p \<in> set (select_elements P (plug crumbs n))"
    and "\<forall>c \<in> set crumbs. \<not> P (crumb_tag c) (crumb_attrib c)"
    and "[] \<notin> set (select_elements P n)"
  shows "highest_cut ps crumbs = None \<and> lowest_cut ps crumbs = None"
  using assms
proof (induction crumbs arbitrary: ps)
  case Nil
  then show ?case by simp
next
  case (Cons c crumbs)
  obtain l t a r where c: "c = Crumb l t a r" by (cases c)
  have inner: "\<forall>p. p \<in> set (below (length l) ps) \<longleftrightarrow> p \<in> set (select_elements P (plug crumbs n))"
  proof
    fix p
    have "p \<in> set (below (length l) ps) \<longleftrightarrow> length l # p \<in> set (select_children P 0 (l @ plug crumbs n # r))"
      using Cons.prems(1) unfolding c by (auto simp: below_iff)
    also have "\<dots> \<longleftrightarrow> p \<in> set (select_elements P (plug crumbs n))"
      by (auto simp: select_children_iff nth_append)
    finally show "p \<in> set (below (length l) ps) \<longleftrightarrow> p \<in> set (select_elements P (plug crumbs n))" .
  qed
  have "[] \<notin> set (select_elements P (plug crumbs n))"
    using Cons.prems(2,3) root_plug [of P crumbs n] by (cases crumbs) auto
  then have hole: "[length l] \<notin> set ps"
    using inner by (simp add: below_iff)
  have "highest_cut (below (length l) ps) crumbs = None \<and> lowest_cut (below (length l) ps) crumbs = None"
    using Cons.IH [OF inner] Cons.prems(2,3) by simp
  then show ?case
    unfolding c using hole by simp
qed

lemma remove_around_tags:
  "map (\<lambda>c. (crumb_tag c, crumb_attrib c)) (remove_around ps crumbs)
     = map (\<lambda>c. (crumb_tag c, crumb_attrib c)) crumbs"
  by (induction ps crumbs rule: remove_around.induct) auto

lemma loc_node_remove_selected:
  assumes "loc_document st = None"
  shows "loc_node (remove_located (select_elements P (tree_of st)) [] st) = drop_where P (loc_node st)"
proof -
  let ?ps = "below_path (position (loc_above st)) (select_elements P (tree_of st))"
  have "\<forall>p. p \<in> set ?ps \<longleftrightarrow> p \<in> set (select_elements P (loc_node st))"
    by (simp add: below_path_iff tree_of_def select_plug)
  then have "remove_paths ?ps (loc_node st) = drop_where P (loc_node st)"
    by (rule remove_selected)
  then show ?thesis
    using assms by (auto simp: remove_located_def Let_def split: option.splits prod.splits)
qed

text \<open>
  One value of \<open>strip_id_or_class\<close> on a node that is in its document, the value
  plain: the pass fails when the root of the document matches; if
  not, the node it is applied to is left without the elements below it that match.
\<close>

lemma strip_id_or_class_step:
  assumes "loc_document st = None" and "plain v"
  shows "drop_by_xpath st (xpath_id_or_class lib v st) =
     (if [] \<in> set (select_elements (id_or_class_contains v) (tree_of st))
      then Inl (PyExc AssertionError [])
      else Inr (remove_located (select_elements (id_or_class_contains v) (tree_of st)) [] st))"
  using assms by (simp add: xpath_id_or_class_def drop_by_xpath_def drop_tree_each_selected)

lemma strip_id_or_class_root_matching:
  assumes "loc_document st = None" and "plain (strip_quotes v)"
    and "tree_of st = Element t a cs" and "id_or_class_contains (strip_quotes v) t a"
  shows "strip_id_or_class_loop lib (v # vs) st = Inl (PyExc AssertionError [])"
  using assms strip_id_or_class_step [of st "strip_quotes v" lib] by (simp add: Let_def)

lemma drop_where_root:
  "[] \<in> set (select_elements Q (drop_where P n)) \<longleftrightarrow> [] \<in> set (select_elements Q n)"
  unfolding select_root_iff by (cases n) auto

text \<open>
  The pass on a node that is in its document, when every value is plain and
  neither the node nor an element above it matches a value: it returns, the node
  still in its document, and the node has lost, value after value, every element
  below it whose class or id contains the value.
\<close>

lemma strip_id_or_class_loop_attached:
  assumes "loc_document st = None"
    and "\<forall>v \<in> set vs. plain (strip_quotes v)"
    and "\<forall>v \<in> set vs. \<forall>c \<in> set (loc_above st).
           \<not> id_or_class_contains (strip_quotes v) (crumb_tag c) (crumb_attrib c)"
    and "\<forall>v \<in> set vs. [] \<notin> set (select_elements (id_or_class_contains (strip_quotes v)) (loc_node st))"
  shows "\<exists>st'. strip_id_or_class_loop lib vs st = Inr st' \<and> loc_document st' = None
           \<and> loc_node st' =
               foldl (\<lambda>n v. drop_where (id_or_class_contains (strip_quotes v)) n) (loc_node st) vs"
  using assms
proof (induction vs arbitrary: st)
  case Nil
  then show ?case by simp
next
  case (Cons v vs)
  let ?P = "id_or_class_contains (strip_quotes v)"
  let ?ps = "select_elements ?P (tree_of st)"
  let ?mid = "remove_located ?ps [] st"
  have above: "\<forall>c \<in> set (loc_above st). \<not> ?P (crumb_tag c) (crumb_attrib c)"
    and self: "[] \<notin> set (select_elements ?P (loc_node st))"
    using Cons.prems(3,4) by simp_all
  have root: "[] \<notin> set ?ps"
    unfolding tree_of_def root_plug using above self by (cases "loc_above st") auto
  have step: "drop_by_xpath st (xpath_id_or_class lib (strip_quotes v) st) = Inr ?mid"
    using strip_id_or_class_step [of st "strip_quotes v" lib] Cons.prems(1,2) root by simp
  have cut: "highest_cut ?ps (loc_above st) = None \<and> lowest_cut ?ps (loc_above st) = None"
    by (rule no_cut [of _ ?P _ "loc_node st"]) (use above self in \<open>auto simp: tree_of_def\<close>)
  have mid_doc: "loc_document ?mid = None"
    using cut Cons.prems(1) by (simp add: remove_located_def Let_def)
  have mid_above: "loc_above ?mid = remove_around ?ps (loc_above st)"
    using cut Cons.prems(1) by (simp add: remove_located_def Let_def)
  have mid_node: "loc_node ?mid = drop_where ?P (loc_node st)"
    using loc_node_remove_selected [OF Cons.prems(1)] .
  have tags: "(\<lambda>c. (crumb_tag c, crumb_attrib c)) ` set (loc_above ?mid)
      = (\<lambda>c. (crumb_tag c, crumb_attrib c)) ` set (loc_above st)"
    unfolding mid_above using remove_around_tags [of ?ps "loc_above st"]
    by (metis (no_types, lifting) list.set_map)
  have p3: "\<forall>u \<in> set vs. \<forall>c \<in> set (loc_above ?mid).
           \<not> id_or_class_contains (strip_quotes u) (crumb_tag c) (crumb_attrib c)"
  proof (intro ballI)
    fix u c assume u: "u \<in> set vs" and c: "c \<in> set (loc_above ?mid)"
    then have "(crumb_tag c, crumb_attrib c) \<in> (\<lambda>c. (crumb_tag c, crumb_attrib c)) ` set (loc_above st)"
      using tags by blast
    then obtain c' where "c' \<in> set (loc_above st)" "crumb_tag c = crumb_tag c'" "crumb_attrib c = crumb_attrib c'"
      by auto
    then show "\<not> id_or_class_contains (strip_quotes u) (crumb_tag c) (crumb_attrib c)"
      using Cons.prems(3) u by simp
  qed
  have p4: "\<forall>u \<in> set vs. [] \<notin> set (select_elements (id_or_class_contains (strip_quotes u)) (loc_node ?mid))"
    unfolding mid_node drop_where_root using Cons.prems(4) by simp
  have p2: "\<forall>u \<in> set vs. plain (strip_quotes u)"
    using Cons.prems(2) by simp
  from Cons.IH [OF mid_doc p2 p3 p4] obtain st' where
    "strip_id_or_class_loop lib vs ?mid = Inr st'" "loc_document st' = None"
    "loc_node st' = foldl (\<lambda>n v. drop_where (id_or_class_contains (strip_quotes v)) n) (loc_node ?mid) vs"
    by blast
  then show ?case
    using step mid_node by (simp add: Let_def)
qed

lemma drop_where_deleted:
  "deleted_from (drop_where P n) n"
  and drop_where_list_deleted: "deleted_from_list (drop_where_list P cs) cs"
proof (induction P n and P cs rule: drop_where_drop_where_list.induct)
  case (5 P c cs)
  then show ?case
    by (cases c) (auto intro: deleted_from_deleted_from_list.intros)
qed (auto intro: deleted_from_deleted_from_list.intros)

lemma subseq_in_set: "subseq xs ys \<Longrightarrow> x \<in> set xs \<Longrightarrow> x \<in> set ys"
  using list_emb_set [of "(=)" xs ys x] by auto

lemma foldl_drop_where_root:
  "[] \<in> set (select_elements Q (foldl (\<lambda>n v. drop_where (P v) n) n vs))
     \<longleftrightarrow> [] \<in> set (select_elements Q n)"
  by (induction vs arbitrary: n) (simp_all add: drop_where_root)

lemma foldl_drop_where_clean:
  assumes "\<forall>v \<in> set vs. [] \<notin> set (select_elements (P v) n)"
  shows "\<forall>e \<in> set (elements (foldl (\<lambda>n v. drop_where (P v) n) n vs)).
           \<forall>v \<in> set vs. \<not> P v (fst e) (snd e)"
  using assms
proof (induction vs rule: rev_induct)
  case Nil
  then show ?case by simp
next
  case (snoc v vs)
  let ?m = "foldl (\<lambda>n v. drop_where (P v) n) n vs"
  have ih: "\<forall>e \<in> set (elements ?m). \<forall>u \<in> set vs. \<not> P u (fst e) (snd e)"
    using snoc by simp
  have "[] \<notin> set (select_elements (P v) ?m)"
    using snoc.prems by (simp add: foldl_drop_where_root)
  then have "\<And>t a kids. ?m = Element t a kids \<Longrightarrow> \<not> P v t a"
    unfolding select_root_iff by blast
  then have clean_v: "\<forall>e \<in> set (elements (drop_where (P v) ?m)). \<not> P v (fst e) (snd e)"
    by (rule drop_where_clean)
  have sub: "subseq (elements (drop_where (P v) ?m)) (elements ?m)"
    using deleted_from_elements drop_where_deleted by blast
  have clean_vs: "\<forall>e \<in> set (elements (drop_where (P v) ?m)). \<forall>u \<in> set vs. \<not> P u (fst e) (snd e)"
    using ih subseq_in_set [OF sub] by blast
  show ?case
    using clean_v clean_vs by auto
qed

section \<open>Claims about the scraper\<close>

text \<open>
  Claim C3. Take any element with children \<open>cs\<close>. The visit goes through the element
  children first and \<open>kept\<close> is what it leaves of \<open>cs\<close>: every child that is no element,
  and every element child as its own visit leaves it, a child whose visit drops it
  being gone. The prune pass on a body with the children \<open>cs\<close> leaves it with \<open>kept\<close>
  (unless \<open>prune\<close> is \<open>False\<close>, when nothing changes). If an element or comment is left
  among \<open>kept\<close>, the element stays, whatever its text. Otherwise, on the trimmed text
  of the element, with the count of word characters, commas and periods
  (\<open>nonspecial\<close>), the count of whitespace, and \<open>special\<close> the length minus both, the
  element is dropped exactly when its tag is not \<open>br\<close> and either
  \<open>special + nonspecial = 0\<close> or \<open>special / (special + nonspecial)\<close> is greater than one
  half; an element that stays keeps its tag, attributes and \<open>kept\<close>. The comparison is
  strict: with as many special as nonspecial characters the element stays. The sum
  \<open>special + nonspecial\<close> is never negative, the quotient exceeds one half exactly when
  there are more special than nonspecial characters, and when no character of the
  text is both whitespace and nonspecial, \<open>special\<close> is the number of characters that
  are neither.
\<close>

theorem prune_element_decision:
  "(let kept = concat (map (\<lambda>c. if is_element c
                                  then (case prune_element lib (1/2) c of None \<Rightarrow> [] | Some c' \<Rightarrow> [c'])
                                  else [c]) cs);
        content = py_strip lib (text_content_list kept);
        nonspecial_count = int (length (filter (\<lambda>c. word_char lib c \<or> c = 44 \<or> c = 46) content));
        whitespace_count = int (length (filter (whitespace lib) content));
        special_count = int (length content) - whitespace_count - nonspecial_count
    in prune_children lib (1/2) cs = kept
     \<and> maybe_prune lib spec (Element t a cs) (1/2)
         = Element t a (if spec_is_not_False spec ''prune'' then kept else cs)
     \<and> (0 < len kept \<longrightarrow> prune_element lib (1/2) (Element t a cs) = Some (Element t a kept))
     \<and> (len kept = 0 \<longrightarrow>
          (prune_element lib (1/2) (Element t a cs) = None \<longleftrightarrow>
             t \<noteq> ''br'' \<and> (special_count + nonspecial_count = 0
                \<or> real_of_int special_count / real_of_int (special_count + nonspecial_count) > 1/2))
          \<and> (prune_element lib (1/2) (Element t a cs) \<noteq> None \<longrightarrow>
                prune_element lib (1/2) (Element t a cs) = Some (Element t a kept))
          \<and> (special_count = nonspecial_count \<and> special_count \<noteq> 0 \<longrightarrow>
                prune_element lib (1/2) (Element t a cs) = Some (Element t a kept)))
     \<and> 0 \<le> special_count + nonspecial_count
     \<and> (0 < special_count + nonspecial_count \<longrightarrow>
          (real_of_int special_count / real_of_int (special_count + nonspecial_count) > 1/2)
            = (nonspecial_count < special_count))
     \<and> ((\<forall>c \<in> set content. \<not> (whitespace lib c \<and> (word_char lib c \<or> c = 44 \<or> c = 46))) \<longrightarrow>
          special_count
            = int (length (filter (\<lambda>c. \<not> (word_char lib c \<or> c = 44 \<or> c = 46) \<and> \<not> whitespace lib c) content))))"
proof -
  define kept where "kept = concat (map (\<lambda>c. if is_element c
                                  then (case prune_element lib (1/2) c of None \<Rightarrow> [] | Some c' \<Rightarrow> [c'])
                                  else [c]) cs)"
  define content where "content = py_strip lib (text_content_list kept)"
  define N where "N = (\<lambda>c. word_char lib c \<or> c = 44 \<or> c = 46)"
  define n where "n = int (length (filter N content))"
  define w where "w = int (length (filter (whitespace lib) content))"
  define s where "s = int (length content) - w - n"
  have ns: "nonspecial lib = N"
    by (simp add: nonspecial_def N_def fun_eq_iff)
  have k: "prune_children lib (1/2) cs = kept"
    unfolding kept_def by (rule prune_children_concat)
  have m: "maybe_prune lib spec (Element t a cs) (1/2)
         = Element t a (if spec_is_not_False spec ''prune'' then kept else cs)"
    using k by (simp add: maybe_prune_def)
  have code: "prune_element lib (1/2) (Element t a cs) =
      (if 0 < len kept then Some (Element t a kept)
       else if t \<noteq> ''br'' \<and> (s + n = 0 \<or> real_of_int s / real_of_int (s + n) > 1/2)
            then None else Some (Element t a kept))"
    using k by (simp add: Let_def content_def n_def w_def s_def findall_count_def ns)
  have nonneg: "0 \<le> s + n"
    unfolding s_def w_def using count_bound [of content "whitespace lib"] by simp
  have ratio: "0 < s + n \<longrightarrow> (real_of_int s / real_of_int (s + n) > 1/2) = (n < s)"
    using ratio_above_half [of s n] by simp
  have a: "0 < len kept \<longrightarrow> prune_element lib (1/2) (Element t a cs) = Some (Element t a kept)"
    using code by simp
  have b: "len kept = 0 \<longrightarrow>
          (prune_element lib (1/2) (Element t a cs) = None \<longleftrightarrow>
             t \<noteq> ''br'' \<and> (s + n = 0 \<or> real_of_int s / real_of_int (s + n) > 1/2))"
    using code by simp
  have c: "len kept = 0 \<longrightarrow> prune_element lib (1/2) (Element t a cs) \<noteq> None \<longrightarrow>
                prune_element lib (1/2) (Element t a cs) = Some (Element t a kept)"
    using code by (simp split: if_splits)
  have d: "len kept = 0 \<longrightarrow> s = n \<and> s \<noteq> 0 \<longrightarrow>
                prune_element lib (1/2) (Element t a cs) = Some (Element t a kept)"
  proof (intro impI)
    assume l: "len kept = 0" and e: "s = n \<and> s \<noteq> 0"
    then have pos: "0 < s + n" using nonneg by linarith
    then have "\<not> (real_of_int s / real_of_int (s + n) > 1/2)" "s + n \<noteq> 0"
      using ratio e by auto
    then have "prune_element lib (1/2) (Element t a cs) \<noteq> None"
      using b l by blast
    then show "prune_element lib (1/2) (Element t a cs) = Some (Element t a kept)"
      using c l by blast
  qed
  have e: "(\<forall>c \<in> set content. \<not> (whitespace lib c \<and> N c)) \<longrightarrow>
          s = int (length (filter (\<lambda>c. \<not> N c \<and> \<not> whitespace lib c) content))"
    unfolding s_def w_def n_def using count_classes [of content "whitespace lib" N] by simp
  have "prune_children lib (1/2) cs = kept
     \<and> maybe_prune lib spec (Element t a cs) (1/2)
         = Element t a (if spec_is_not_False spec ''prune'' then kept else cs)
     \<and> (0 < len kept \<longrightarrow> prune_element lib (1/2) (Element t a cs) = Some (Element t a kept))
     \<and> (len kept = 0 \<longrightarrow>
          (prune_element lib (1/2) (Element t a cs) = None \<longleftrightarrow>
             t \<noteq> ''br'' \<and> (s + n = 0 \<or> real_of_int s / real_of_int (s + n) > 1/2))
          \<and> (prune_element lib (1/2) (Element t a cs) \<noteq> None \<longrightarrow>
                prune_element lib (1/2) (Element t a cs) = Some (Element t a kept))
          \<and> (s = n \<and> s \<noteq> 0 \<longrightarrow>
                prune_element lib (1/2) (Element t a cs) = Some (Element t a kept)))
     \<and> 0 \<le> s + n
     \<and> (0 < s + n \<longrightarrow> (real_of_int s / real_of_int (s + n) > 1/2) = (n < s))
     \<and> ((\<forall>c \<in> set content. \<not> (whitespace lib c \<and> N c)) \<longrightarrow>
          s = int (length (filter (\<lambda>c. \<not> N c \<and> \<not> whitespace lib c) content)))"
    using k m a b c d nonneg ratio e by blast
  then show ?thesis
    unfolding Let_def s_def n_def w_def N_def content_def kept_def .
qed

theorem prune_element_decision_witness:
  "prune_element example_lib (1/2) (Element ''p'' [] [Text [99, 97, 102, 233, 33, 33, 33]])
       = Some (Element ''p'' [] [Text [99, 97, 102, 233, 33, 33, 33]])
   \<and> prune_element example_lib (1/2) (Element ''p'' [] [Text [97, 28, 64]])
       = Some (Element ''p'' [] [Text [97, 28, 64]])
   \<and> length (filter (\<lambda>c. \<not> (word_char example_lib c \<or> c = 44 \<or> c = 46)
                            \<and> \<not> whitespace example_lib c) [97, 28, 64]) = 1
   \<and> prune_element example_lib (1/2) (Element ''p'' [] [Text [160, 64, 97, 160]])
       = Some (Element ''p'' [] [Text [160, 64, 97, 160]])
   \<and> prune_element example_lib (1/2) (Element ''p'' [] [Text [945, 33, 33]])
       = None
   \<and> prune_element example_lib (1/2) (Element ''p'' [] [Text [46, 46, 46]])
       = Some (Element ''p'' [] [Text [46, 46, 46]])
   \<and> prune_element example_lib (1/2) (Element ''br'' [] []) = Some (Element ''br'' [] [])
   \<and> prune_element example_lib (1/2)
         (Element ''div'' []
            [Element ''p'' [] [Text [64, 64, 64]], Text [64, 64, 64],
              Element ''p'' [] [Text [104, 105]]])
       = Some (Element ''div'' [] [Text [64, 64, 64], Element ''p'' [] [Text [104, 105]]])
   \<and> prune_element example_lib (1/2) (Element ''div'' [] [Element ''p'' [] [Text [64, 64, 64]]]) = None
   \<and> maybe_prune example_lib [] (Element ''body'' [] [Element ''p'' [] [Text [64, 64, 64]], Text [120]]) (1/2)
       = Element ''body'' [] [Text [120]]
   \<and> maybe_prune example_lib [(''prune'', Flag False)]
         (Element ''body'' [] [Element ''p'' [] [Text [64, 64, 64]], Text [120]]) (1/2)
       = Element ''body'' [] [Element ''p'' [] [Text [64, 64, 64]], Text [120]]"
proof -
  note classes = word_char_def isalnum_def whitespace_def ascii_whitespace_def isspace_def
    example_lib_def example_isspace_def example_isalnum_def
  note visit = Let_def len_def py_strip_def strip_chars_def nonspecial_def findall_count_def
  have a: "prune_element example_lib (1/2) (Element ''p'' [] [Text [99, 97, 102, 233, 33, 33, 33]])
       = Some (Element ''p'' [] [Text [99, 97, 102, 233, 33, 33, 33]])"
  proof -
    note d = prune_element_decision
        [where lib = example_lib and t = "''p''" and a = "[]" and spec = "[]"
           and cs = "[Text [99, 97, 102, 233, 33, 33, 33]]",
         unfolded Let_def]
    have k: "prune_children example_lib (1/2) [Text [99, 97, 102, 233, 33, 33, 33]] = [Text [99, 97, 102, 233, 33, 33, 33]]"
      by simp
    have c: "py_strip example_lib (text_content_list [Text [99, 97, 102, 233, 33, 33, 33]]) = [99, 97, 102, 233, 33, 33, 33]"
      by (simp add: py_strip_def strip_chars_def classes)
    have n: "int (length (filter (\<lambda>c. word_char example_lib c \<or> c = 44 \<or> c = 46) [99, 97, 102, 233, 33, 33, 33]))
        = 4"
      by (simp add: classes)
    have w: "int (length (filter (whitespace example_lib) [99, 97, 102, 233, 33, 33, 33])) = 0"
      by (simp add: classes)
    show ?thesis
      using d [THEN conjunct2, THEN conjunct2, THEN conjunct2, THEN conjunct1]
      unfolding d [THEN conjunct1, symmetric] k c n w
      by (simp add: len_def)
  qed
  have b: "prune_element example_lib (1/2) (Element ''p'' [] [Text [97, 28, 64]])
       = Some (Element ''p'' [] [Text [97, 28, 64]])"
  proof -
    note d = prune_element_decision
        [where lib = example_lib and t = "''p''" and a = "[]" and spec = "[]"
           and cs = "[Text [97, 28, 64]]",
         unfolded Let_def]
    have k: "prune_children example_lib (1/2) [Text [97, 28, 64]] = [Text [97, 28, 64]]"
      by simp
    have c: "py_strip example_lib (text_content_list [Text [97, 28, 64]]) = [97, 28, 64]"
      by (simp add: py_strip_def strip_chars_def classes)
    have n: "int (length (filter (\<lambda>c. word_char example_lib c \<or> c = 44 \<or> c = 46) [97, 28, 64]))
        = 1"
      by (simp add: classes)
    have w: "int (length (filter (whitespace example_lib) [97, 28, 64])) = 1"
      by (simp add: classes)
    show ?thesis
      using d [THEN conjunct2, THEN conjunct2, THEN conjunct2, THEN conjunct1]
      unfolding d [THEN conjunct1, symmetric] k c n w
      by (simp add: len_def)
  qed
  have b': "length (filter (\<lambda>c. \<not> (word_char example_lib c \<or> c = 44 \<or> c = 46)
                            \<and> \<not> whitespace example_lib c) [97, 28, 64]) = 1"
  proof -
    note d = prune_element_decision
        [where lib = example_lib and t = "''p''" and a = "[]" and spec = "[]"
           and cs = "[Text [97, 28, 64]]",
         unfolded Let_def]
    have k: "prune_children example_lib (1/2) [Text [97, 28, 64]] = [Text [97, 28, 64]]"
      by simp
    have c: "py_strip example_lib (text_content_list [Text [97, 28, 64]]) = [97, 28, 64]"
      by (simp add: py_strip_def strip_chars_def classes)
    have n: "int (length (filter (\<lambda>c. word_char example_lib c \<or> c = 44 \<or> c = 46) [97, 28, 64]))
        = 1"
      by (simp add: classes)
    have w: "int (length (filter (whitespace example_lib) [97, 28, 64])) = 1"
      by (simp add: classes)
    have apart: "\<forall>c \<in> set [97, 28, 64].
        \<not> (whitespace example_lib c \<and> (word_char example_lib c \<or> c = 44 \<or> c = 46))"
      by (simp add: classes)
    have "int (length [97::nat, 28, 64]) - 1 - 1
        = int (length (filter (\<lambda>c. \<not> (word_char example_lib c \<or> c = 44 \<or> c = 46)
                                    \<and> \<not> whitespace example_lib c) [97, 28, 64]))"
      using d [THEN conjunct2, THEN conjunct2, THEN conjunct2, THEN conjunct2, THEN conjunct2,
               THEN conjunct2] apart
      unfolding d [THEN conjunct1, symmetric] k c n w
      by blast
    then show ?thesis by simp
  qed
  have c: "prune_element example_lib (1/2) (Element ''p'' [] [Text [160, 64, 97, 160]])
       = Some (Element ''p'' [] [Text [160, 64, 97, 160]])"
  proof -
    note d = prune_element_decision
        [where lib = example_lib and t = "''p''" and a = "[]" and spec = "[]"
           and cs = "[Text [160, 64, 97, 160]]",
         unfolded Let_def]
    have k: "prune_children example_lib (1/2) [Text [160, 64, 97, 160]] = [Text [160, 64, 97, 160]]"
      by simp
    have c: "py_strip example_lib (text_content_list [Text [160, 64, 97, 160]]) = [64, 97]"
      by (simp add: py_strip_def strip_chars_def classes)
    have n: "int (length (filter (\<lambda>c. word_char example_lib c \<or> c = 44 \<or> c = 46) [64, 97]))
        = 1"
      by (simp add: classes)
    have w: "int (length (filter (whitespace example_lib) [64, 97])) = 0"
      by (simp add: classes)
    show ?thesis
      using d [THEN conjunct2, THEN conjunct2, THEN conjunct2, THEN conjunct1]
      unfolding d [THEN conjunct1, symmetric] k c n w
      by (simp add: len_def)
  qed
  have d: "prune_element example_lib (1/2) (Element ''p'' [] [Text [945, 33, 33]])
       = None"
  proof -
    note d = prune_element_decision
        [where lib = example_lib and t = "''p''" and a = "[]" and spec = "[]"
           and cs = "[Text [945, 33, 33]]",
         unfolded Let_def]
    have k: "prune_children example_lib (1/2) [Text [945, 33, 33]] = [Text [945, 33, 33]]"
      by simp
    have c: "py_strip example_lib (text_content_list [Text [945, 33, 33]]) = [945, 33, 33]"
      by (simp add: py_strip_def strip_chars_def classes)
    have n: "int (length (filter (\<lambda>c. word_char example_lib c \<or> c = 44 \<or> c = 46) [945, 33, 33]))
        = 1"
      by (simp add: classes)
    have w: "int (length (filter (whitespace example_lib) [945, 33, 33])) = 0"
      by (simp add: classes)
    show ?thesis
      using d [THEN conjunct2, THEN conjunct2, THEN conjunct2, THEN conjunct1]
      unfolding d [THEN conjunct1, symmetric] k c n w
      by (simp add: len_def)
  qed
  have e: "prune_element example_lib (1/2) (Element ''p'' [] [Text [46, 46, 46]])
       = Some (Element ''p'' [] [Text [46, 46, 46]])"
  proof -
    note d = prune_element_decision
        [where lib = example_lib and t = "''p''" and a = "[]" and spec = "[]"
           and cs = "[Text [46, 46, 46]]",
         unfolded Let_def]
    have k: "prune_children example_lib (1/2) [Text [46, 46, 46]] = [Text [46, 46, 46]]"
      by simp
    have c: "py_strip example_lib (text_content_list [Text [46, 46, 46]]) = [46, 46, 46]"
      by (simp add: py_strip_def strip_chars_def classes)
    have n: "int (length (filter (\<lambda>c. word_char example_lib c \<or> c = 44 \<or> c = 46) [46, 46, 46]))
        = 3"
      by (simp add: classes)
    have w: "int (length (filter (whitespace example_lib) [46, 46, 46])) = 0"
      by (simp add: classes)
    show ?thesis
      using d [THEN conjunct2, THEN conjunct2, THEN conjunct2, THEN conjunct1]
      unfolding d [THEN conjunct1, symmetric] k c n w
      by (simp add: len_def)
  qed
  have f: "prune_element example_lib (1/2) (Element ''br'' [] []) = Some (Element ''br'' [] [])"
  proof -
    note d = prune_element_decision
        [where lib = example_lib and t = "''br''" and a = "[]" and spec = "[]"
           and cs = "[]",
         unfolded Let_def]
    have k: "prune_children example_lib (1/2) [] = []"
      by simp
    have c: "py_strip example_lib (text_content_list []) = []"
      by (simp add: py_strip_def strip_chars_def)
    show ?thesis
      using d [THEN conjunct2, THEN conjunct2, THEN conjunct2, THEN conjunct1]
      unfolding d [THEN conjunct1, symmetric] k c
      by (simp add: len_def)
  qed
  have g: "prune_element example_lib (1/2)
         (Element ''div'' []
            [Element ''p'' [] [Text [64, 64, 64]], Text [64, 64, 64],
              Element ''p'' [] [Text [104, 105]]])
       = Some (Element ''div'' [] [Text [64, 64, 64], Element ''p'' [] [Text [104, 105]]])"
  proof -
    note d = prune_element_decision
        [where lib = example_lib and t = "''div''" and a = "[]" and spec = "[]"
           and cs = "[Element ''p'' [] [Text [64, 64, 64]], Text [64, 64, 64],
              Element ''p'' [] [Text [104, 105]]]",
         unfolded Let_def]
    have k: "prune_children example_lib (1/2)
            [Element ''p'' [] [Text [64, 64, 64]], Text [64, 64, 64],
              Element ''p'' [] [Text [104, 105]]]
        = [Text [64, 64, 64], Element ''p'' [] [Text [104, 105]]]"
      by (simp add: visit classes)
    show ?thesis
      using d [THEN conjunct2, THEN conjunct2, THEN conjunct1]
      unfolding d [THEN conjunct1, symmetric] k
      by (simp add: len_def)
  qed
  have h: "prune_element example_lib (1/2) (Element ''div'' [] [Element ''p'' [] [Text [64, 64, 64]]]) = None"
  proof -
    note d = prune_element_decision
        [where lib = example_lib and t = "''div''" and a = "[]" and spec = "[]"
           and cs = "[Element ''p'' [] [Text [64, 64, 64]]]",
         unfolded Let_def]
    have k: "prune_children example_lib (1/2) [Element ''p'' [] [Text [64, 64, 64]]] = []"
      by (simp add: visit classes)
    have c: "py_strip example_lib (text_content_list []) = []"
      by (simp add: py_strip_def strip_chars_def)
    show ?thesis
      using d [THEN conjunct2, THEN conjunct2, THEN conjunct2, THEN conjunct1]
      unfolding d [THEN conjunct1, symmetric] k c
      by (simp add: len_def)
  qed
  have i: "maybe_prune example_lib [] (Element ''body'' [] [Element ''p'' [] [Text [64, 64, 64]], Text [120]]) (1/2)
       = Element ''body'' [] [Text [120]]"
  proof -
    note d = prune_element_decision
        [where lib = example_lib and t = "''body''" and a = "[]" and spec = "[]"
           and cs = "[Element ''p'' [] [Text [64, 64, 64]], Text [120]]",
         unfolded Let_def]
    have k: "prune_children example_lib (1/2) [Element ''p'' [] [Text [64, 64, 64]], Text [120]] = [Text [120]]"
      by (simp add: visit classes)
    show ?thesis
      using d [THEN conjunct2, THEN conjunct1]
      unfolding d [THEN conjunct1, symmetric] k
      by (simp add: spec_is_not_False_def)
  qed
  have j: "maybe_prune example_lib [(''prune'', Flag False)]
         (Element ''body'' [] [Element ''p'' [] [Text [64, 64, 64]], Text [120]]) (1/2)
       = Element ''body'' [] [Element ''p'' [] [Text [64, 64, 64]], Text [120]]"
    using prune_element_decision
        [where lib = example_lib and t = "''body''" and a = "[]" and spec = "[(''prune'', Flag False)]"
           and cs = "[Element ''p'' [] [Text [64, 64, 64]], Text [120]]",
         unfolded Let_def, THEN conjunct2, THEN conjunct1]
    by (simp add: spec_is_not_False_def)
  show ?thesis using a b b' c d e f g h i j by blast
qed

text \<open>
  A value with a double quote inside does not reach \<open>contains\<close> as it is configured:
  the expression built from it is another one. Where the engine rejects it, as it does
  for \<open>a"b\<close>, the pass raises and the element whose class holds the value stays.
\<close>

lemma strip_id_or_class_quoted_value:
  "strip_id_or_class no_lib quoted_value_spec quoted_value_doc
     = Inl (PyExc XPathEvalError ''Invalid expression'')"
  by (simp add: strip_id_or_class_def spec_values_def quoted_value_spec_def
        quoted_value_doc_def xpath_id_or_class_def quote_def Let_def strip_quotes_def
        strip_chars_def drop_by_xpath_def no_lib_def plain_def)

text \<open>
  The match is by substring, and it is made in the whole document. On the body of
  the example page, the value \<open>class1\<close> (configured between double quotes, which are
  trimmed) takes out the element of class \<open>notclass1\<close> and the element whose id is
  \<open>myclass12\<close> below the body, and beside the body the element whose id is
  \<open>side class1\<close>. On the fragment, whose element has the class \<open>main\<close>, the value \<open>main\<close>
  selects the element itself: it has a parent, so it is dropped from the document,
  and the pass goes on with it and returns.
\<close>

lemma strip_id_or_class_example:
  "strip_id_or_class lib example_spec example_body =
     Inr \<lparr>loc_tail = [], loc_document = None,
          loc_above =
            [Crumb [Element ''head'' [] [Element ''title'' [] [Text (ustr ''T'')]]] ''html'' [] [],
             Crumb [] ''body'' [(''class'', ''page'')] [Text (ustr ''footer'')]],
          loc_node =
            Element ''div'' [(''id'', ''content'')]
              [Text (ustr ''a''), Text (ustr ''b''),
               Element ''p'' [(''class'', ''keep'')]
                 [Text (ustr ''text''), Element ''img'' [(''src'', ''http://ads/x.png'')] []],
               Element ''p'' [] [Text (ustr ''@@@'')]]\<rparr>"
  by (simp add: strip_id_or_class_def example_spec_def spec_values_def xpath_id_or_class_def
        quote_def example_body_def example_content_def id_or_class_contains_def contains_def
        attribute_def drop_by_xpath_def sublist_code Let_def strip_quotes_def strip_chars_def
        tree_of_def remove_located_def position_def plain_def)

lemma strip_id_or_class_fragment:
  "strip_id_or_class lib [(''strip_id_or_class'', Values [''main''])] fragment =
     Inr \<lparr>loc_tail = ustr ''y'',
          loc_document = Some (Element ''html'' [] [Element ''body'' [] [Text (ustr ''x''), Text (ustr ''y'')]]),
          loc_above = [],
          loc_node =
            Element ''div'' [(''class'', ''main'')]
              [Text (ustr ''a''), Element ''p'' [] [Text (ustr ''hello'')]]\<rparr>"
  by (simp add: strip_id_or_class_def spec_values_def xpath_id_or_class_def
        quote_def fragment_def id_or_class_contains_def contains_def
        attribute_def drop_by_xpath_def sublist_code Let_def strip_quotes_def strip_chars_def
        tree_of_def remove_located_def position_def closed_def plain_def)

text \<open>
  The pass on a node that is in its document, when every value, trimmed, is plain
  and neither the node nor an element above it matches a value: the node is
  left without any element below it whose class or id contains a value.
\<close>

lemma strip_id_or_class_attached:
  assumes "loc_document st = None"
    and "\<forall>v \<in> set (spec_values spec ''strip_id_or_class''). plain (strip_quotes v)"
    and "\<forall>v \<in> set (spec_values spec ''strip_id_or_class''). \<forall>c \<in> set (loc_above st).
           \<not> id_or_class_contains (strip_quotes v) (crumb_tag c) (crumb_attrib c)"
    and "\<forall>v \<in> set (spec_values spec ''strip_id_or_class'').
           [] \<notin> set (select_elements (id_or_class_contains (strip_quotes v)) (loc_node st))"
  shows "\<exists>st'. strip_id_or_class lib spec st = Inr st'
           \<and> loc_node st' =
               foldl (\<lambda>n v. drop_where (id_or_class_contains (strip_quotes v)) n) (loc_node st)
                 (spec_values spec ''strip_id_or_class'')
           \<and> (\<forall>e \<in> set (elements (loc_node st')).
                 \<forall>v \<in> set (spec_values spec ''strip_id_or_class'').
                   \<not> sublist (strip_quotes v) (attribute (snd e) ''class'')
                   \<and> \<not> sublist (strip_quotes v) (attribute (snd e) ''id''))"
proof -
  let ?vs = "spec_values spec ''strip_id_or_class''"
  let ?P = "\<lambda>v. id_or_class_contains (strip_quotes v)"
  from strip_id_or_class_loop_attached [OF assms, of lib] obtain st' where
    r: "strip_id_or_class lib spec st = Inr st'"
       "loc_node st' = foldl (\<lambda>n v. drop_where (?P v) n) (loc_node st) ?vs"
    unfolding strip_id_or_class_def by blast
  have "\<forall>e \<in> set (elements (loc_node st')). \<forall>v \<in> set ?vs. \<not> ?P v (fst e) (snd e)"
    unfolding r(2) using assms(4) by (rule foldl_drop_where_clean)
  then have "\<forall>e \<in> set (elements (loc_node st')). \<forall>v \<in> set ?vs.
            \<not> sublist (strip_quotes v) (attribute (snd e) ''class'')
            \<and> \<not> sublist (strip_quotes v) (attribute (snd e) ''id'')"
    by (simp add: id_or_class_contains_def contains_def)
  then show ?thesis
    using r by blast
qed

text \<open>
  Claim C8 does not hold of the code: an element whose class contains the value is
  not deleted when it is the root of the document. Take the page
  \<open><html class=notclass1><body>x</body></html>\<close> and the rule set with \<open>lxml_clean\<close>
  off and the value \<open>class1\<close>. The expression selects the root, \<open>drop_tree\<close> fails on
  it because it has no parent, and the pass raises \<open>AssertionError\<close>, whatever the
  library does elsewhere; nothing is deleted and \<open>clean_article\<close> returns no result.
  \<open>_drop_by_xpath\<close>, which is to drop all elements matching the expression, drops
  none.
\<close>

theorem strip_id_or_class_root_raises:
  "strip_id_or_class lib [(''strip_id_or_class'', Values [''class1''])]
       \<lparr>loc_tail = [], loc_document = None, loc_above = [], loc_node = root_class_doc\<rparr>
     = Inl (PyExc AssertionError [])
   \<and> clean_article root_class_lib root_class_spec ''<html class=notclass1><body>x</body></html>''
     = Inl (PyExc AssertionError [])"
proof -
  have pass: "\<And>lib. strip_id_or_class lib [(''strip_id_or_class'', Values [''class1''])]
       \<lparr>loc_tail = [], loc_document = None, loc_above = [], loc_node = root_class_doc\<rparr>
     = Inl (PyExc AssertionError [])"
    by (simp add: strip_id_or_class_def spec_values_def root_class_doc_def
        xpath_id_or_class_def quote_def id_or_class_contains_def contains_def
        attribute_def drop_by_xpath_def sublist_code Let_def strip_quotes_def strip_chars_def
        tree_of_def plain_def)
  have strip: "strip_nodes root_class_lib root_class_spec
       \<lparr>loc_tail = [], loc_document = None, loc_above = [], loc_node = root_class_doc\<rparr>
     = Inr \<lparr>loc_tail = [], loc_document = None, loc_above = [], loc_node = root_class_doc\<rparr>"
    by (simp add: strip_nodes_def spec_values_def root_class_spec_def)
  have vals: "spec_values root_class_spec ''strip_id_or_class'' = [''class1'']"
    by (simp add: spec_values_def root_class_spec_def)
  have val: "spec_values [(''strip_id_or_class'', Values [''class1''])] ''strip_id_or_class'' = [''class1'']"
    by (simp add: spec_values_def)
  have sid: "strip_id_or_class root_class_lib root_class_spec
       \<lparr>loc_tail = [], loc_document = None, loc_above = [], loc_node = root_class_doc\<rparr>
     = Inl (PyExc AssertionError [])"
    using pass [of root_class_lib] unfolding strip_id_or_class_def vals val .
  have passes: "body_passes root_class_lib root_class_spec
       \<lparr>loc_tail = [], loc_document = None, loc_above = [], loc_node = root_class_doc\<rparr>
     = Inl (PyExc AssertionError [])"
    using strip sid by (simp add: body_passes_def)
  have "clean_article root_class_lib root_class_spec ''<html class=notclass1><body>x</body></html>''
     = Inl (PyExc AssertionError [])"
    using passes
    by (simp add: clean_article_def maybe_clean_def find_replace_def spec_pairs_def
          spec_is_not_False_def root_class_spec_def html_fromstring_def root_class_lib_def
          no_lib_def spec_values_def select_body_def)
  then show ?thesis using pass by blast
qed

text \<open>
  Claim C10. When the four passes on the body return, the body they return is the
  body they were given with some elements or comments taken out, each with everything
  below it; nothing is inserted, moved or rewritten. Every element that stays has its
  tag, its attributes, its character data and its place among the nodes that stay,
  and the elements of the result are, in order, elements of the body as it was. This
  holds as well for a run in which an expression selects the body itself or an
  element above it, which then leaves the document with its content.
\<close>

theorem body_passes_only_delete:
  assumes "body_passes lib spec body0 = Inr body'"
  shows "deleted_from (loc_node body') (loc_node body0)
     \<and> subseq (elements (loc_node body')) (elements (loc_node body0))"
proof -
  from assms obtain b1 b2 b3 where
    s1: "strip_nodes lib spec body0 = Inr b1" and
    s2: "strip_id_or_class lib spec b1 = Inr b2" and
    s3: "strip_image_src lib spec b2 = Inr b3" and
    s4: "body' = b3\<lparr>loc_node := maybe_prune lib spec (loc_node b3) (1/2)\<rparr>"
    by (auto simp: body_passes_def split: sum.splits)
  have d1: "deleted_from (loc_node b1) (loc_node body0)"
    using s1 by (simp add: strip_nodes_def strip_nodes_loop_deleted)
  have d2: "deleted_from (loc_node b2) (loc_node b1)"
    using s2 by (simp add: strip_id_or_class_def strip_id_or_class_loop_deleted)
  have d3: "deleted_from (loc_node b3) (loc_node b2)"
    using s3 by (simp add: strip_image_src_def strip_image_src_loop_deleted)
  have d4: "deleted_from (loc_node body') (loc_node b3)"
    unfolding s4 by (simp add: maybe_prune_deleted)
  have "deleted_from (loc_node body') (loc_node body0)"
    using d1 d2 d3 d4 deleted_from_trans by blast
  then show ?thesis using deleted_from_elements by blast
qed

theorem body_passes_only_delete_witness:
  "body_passes example_lib strip_all_spec example_body =
     Inr \<lparr>loc_tail = [], loc_document = None,
          loc_above =
            [Crumb [Element ''head'' [] [Element ''title'' [] [Text (ustr ''T'')]]] ''html'' [] [],
             Crumb [] ''body'' [(''class'', ''page'')] [Text (ustr ''footer'')]],
          loc_node =
            Element ''div'' [(''id'', ''content'')]
              [Text (ustr ''a''), Text (ustr ''b''),
               Element ''p'' [(''class'', ''keep'')] [Text (ustr ''text'')]]\<rparr>
   \<and> deleted_from
       (Element ''div'' [(''id'', ''content'')]
          [Text (ustr ''a''), Text (ustr ''b''),
           Element ''p'' [(''class'', ''keep'')] [Text (ustr ''text'')]])
       example_content
   \<and> subseq [(''div'', [(''id'', ''content'')]), (''p'', [(''class'', ''keep'')])]
        (elements example_content)
   \<and> body_passes no_lib [(''strip_id_or_class'', Values [''main''])] fragment =
       Inr \<lparr>loc_tail = ustr ''y'',
          loc_document = Some (Element ''html'' [] [Element ''body'' [] [Text (ustr ''x''), Text (ustr ''y'')]]),
            loc_above = [],
            loc_node =
              Element ''div'' [(''class'', ''main'')]
                [Text (ustr ''a''), Element ''p'' [] [Text (ustr ''hello'')]]\<rparr>
   \<and> deleted_from
       (Element ''div'' [(''class'', ''main'')]
          [Text (ustr ''a''), Element ''p'' [] [Text (ustr ''hello'')]])
       (Element ''div'' [(''class'', ''main'')]
          [Text (ustr ''a''), Element ''p'' [(''id'', ''xmain'')] [Text (ustr ''ad'')],
           Element ''p'' [] [Text (ustr ''hello'')]])"
proof -
  note defs = body_passes_def strip_nodes_def strip_id_or_class_def strip_image_src_def
    spec_values_def spec_is_not_False_def xpath_id_or_class_def xpath_img_src_def quote_def
    id_or_class_contains_def img_src_contains_def contains_def attribute_def drop_by_xpath_def
    sublist_code Let_def strip_quotes_def strip_chars_def maybe_prune_def len_def py_strip_def
    ascii_whitespace_def whitespace_def nonspecial_def word_char_def findall_count_def
    isspace_def isalnum_def example_isspace_def example_isalnum_def ustr_def tree_of_def remove_located_def position_def
    closed_def plain_def
  have res: "body_passes example_lib strip_all_spec example_body =
     Inr \<lparr>loc_tail = [], loc_document = None,
          loc_above =
            [Crumb [Element ''head'' [] [Element ''title'' [] [Text (ustr ''T'')]]] ''html'' [] [],
             Crumb [] ''body'' [(''class'', ''page'')] [Text (ustr ''footer'')]],
          loc_node =
            Element ''div'' [(''id'', ''content'')]
              [Text (ustr ''a''), Text (ustr ''b''),
               Element ''p'' [(''class'', ''keep'')] [Text (ustr ''text'')]]\<rparr>"
    by (simp add: defs strip_all_spec_def example_lib_def example_body_def example_content_def)
  have frag: "body_passes no_lib [(''strip_id_or_class'', Values [''main''])] fragment =
       Inr \<lparr>loc_tail = ustr ''y'',
          loc_document = Some (Element ''html'' [] [Element ''body'' [] [Text (ustr ''x''), Text (ustr ''y'')]]),
            loc_above = [],
            loc_node =
              Element ''div'' [(''class'', ''main'')]
                [Text (ustr ''a''), Element ''p'' [] [Text (ustr ''hello'')]]\<rparr>"
    by (simp add: defs no_lib_def fragment_def)
  have content: "loc_node example_body = example_content"
    by (simp add: example_body_def)
  have node: "loc_node fragment =
       Element ''div'' [(''class'', ''main'')]
          [Text (ustr ''a''), Element ''p'' [(''id'', ''xmain'')] [Text (ustr ''ad'')],
           Element ''p'' [] [Text (ustr ''hello'')]]"
    by (simp add: fragment_def)
  show ?thesis
    using body_passes_only_delete [OF res] body_passes_only_delete [OF frag] res frag
    unfolding content node by simp
qed

text \<open>
  Claim C6, as stated, fails: with an empty string as the page, \<open>clean_article\<close> raises
  the parser's error and returns no result.
\<close>

theorem clean_article_empty_source_raises:
  "clean_article no_lib title_spec [] = Inl (PyExc ParserError ''Document is empty'')"
  by (simp add: clean_article_def maybe_clean_def clean_html_def find_replace_def spec_pairs_def
        title_spec_def spec_is_not_False_def)

text \<open>
  Claim C6, amended. For every rule set whose find and replace pairs leave the empty
  string empty (as they do when no find string is empty), \<open>clean_article\<close> on the empty
  string raises \<open>ParserError: Document is empty\<close>, from \<open>clean_html\<close> or, with
  \<open>lxml_clean\<close> off, from \<open>html.fromstring\<close>; no document is built and no field is set.
\<close>

theorem clean_article_empty_source:
  "(find_replace spec [] = [] \<longrightarrow>
      clean_article lib spec [] = Inl (PyExc ParserError ''Document is empty''))
   \<and> ((\<forall>p \<in> set (spec_pairs spec ''find_replace''). fst p \<noteq> []) \<longrightarrow> find_replace spec [] = [])"
  by (auto simp: clean_article_def maybe_clean_def clean_html_def html_fromstring_def
        find_replace_def find_replace_loop_empty)


theorem clean_article_empty_source_witness:
  "find_replace strip_all_spec [] = []
   \<and> clean_article example_lib strip_all_spec [] = Inl (PyExc ParserError ''Document is empty'')
   \<and> clean_article example_lib ((''lxml_clean'', Flag False) # strip_all_spec) []
       = Inl (PyExc ParserError ''Document is empty'')"
proof -
  have a: "find_replace strip_all_spec [] = []"
    by (simp add: find_replace_def spec_pairs_def strip_all_spec_def)
  have b: "find_replace ((''lxml_clean'', Flag False) # strip_all_spec) [] = []"
    by (simp add: find_replace_def spec_pairs_def strip_all_spec_def)
  show ?thesis
    using clean_article_empty_source [of strip_all_spec example_lib]
      clean_article_empty_source [of "(''lxml_clean'', Flag False) # strip_all_spec" example_lib] a b
    by blast
qed

section \<open>cascade.py: the cascade and its merge\<close>







section \<open>sitespec.py: running a test case\<close>

text \<open>
  A \<open>TestCase\<close> holds a url and the fragments expected in the output. \<open>run\<close> returns a
  dictionary with the keys \<open>url\<close>, \<open>status\<close> and either \<open>message\<close> or \<open>missing_fragments\<close>
  (the record \<open>report\<close>, an absent key being \<open>None\<close>), and writes to \<open>sys.stderr\<close> (the
  list of the strings written, in order). \<open>clean_content\<close> is a parameter: the
  dictionary it returns or the exception it raises; \<open>["plaintext"]\<close> raises \<open>KeyError\<close>
  on a dictionary without that key. The handler is \<open>except Exception\<close>, which catches
  every exception of the model.
\<close>

record test_case =
  url :: string
  fragments :: "string list"

record report =
  report_url :: string
  status :: string
  message :: "string option"
  missing :: "string list option"

fun missing_fragments :: "test_case \<Rightarrow> string \<Rightarrow> string list" where
  "missing_fragments tc text = filter (\<lambda>s. \<not> sublist s text) (fragments tc)"

definition run :: "(string \<Rightarrow> py_exception + article) \<Rightarrow> test_case \<Rightarrow> report \<times> string list" where
  "run clean_content tc =
     (case (case clean_content (url tc) of
              Inl e \<Rightarrow> Inl e
            | Inr res \<Rightarrow>
                (case map_of res ''plaintext'' of
                   None \<Rightarrow> Inl (PyExc KeyError ''plaintext'')
                 | Some out \<Rightarrow> Inr out)) of
        Inl e \<Rightarrow>
          (\<lparr>report_url = url tc, status = ''EXCEPTION'', message = Some ''e.message'', missing = None\<rparr>,
           [''Exception on '' @ url tc @ '' :'' @ [CHR 0x0A], exc_text e])
      | Inr output \<Rightarrow>
          (\<lparr>report_url = url tc, status = ''OK'', message = None,
            missing = Some (missing_fragments tc output)\<rparr>, []))"

text \<open>An extraction that fails with the error text \<open>boom\<close>, and a test case for it.\<close>

definition failing_clean_content :: "string \<Rightarrow> py_exception + article" where
  "failing_clean_content u = Inl (PyExc OtherException ''boom'')"

definition example_test_case :: test_case where
  "example_test_case = \<lparr>url = ''http://example.com/a'', fragments = [''expected text'']\<rparr>"

lemma run_ok:
  assumes "clean_content (url tc) = Inr res" and "map_of res ''plaintext'' = Some out"
  shows "run clean_content tc =
     (\<lparr>report_url = url tc, status = ''OK'', message = None,
       missing = Some (filter (\<lambda>s. \<not> sublist s out) (fragments tc))\<rparr>, [])"
  using assms by (simp add: run_def)

lemma run_exception:
  assumes "clean_content (url tc) = Inl e"
  shows "run clean_content tc =
     (\<lparr>report_url = url tc, status = ''EXCEPTION'', message = Some ''e.message'', missing = None\<rparr>,
      [''Exception on '' @ url tc @ '' :'' @ [CHR 0x0A], exc_text e])"
  using assms by (simp add: run_def)

text \<open>
  Claim C4 does not hold of the code: when the extraction raises an exception with the
  text \<open>boom\<close>, \<open>run\<close> does return a record with status \<open>EXCEPTION\<close> and does not raise,
  but the message of the record is the fixed string \<open>e.message\<close> (the source has the
  expression between quotes); the text of the exception is only written to
  \<open>sys.stderr\<close>.
\<close>

theorem run_exception_message_is_literal:
  "run failing_clean_content example_test_case =
     (\<lparr>report_url = ''http://example.com/a'', status = ''EXCEPTION'',
       message = Some ''e.message'', missing = None\<rparr>,
      [''Exception on http://example.com/a :'' @ [CHR 0x0A], ''boom''])
   \<and> message (fst (run failing_clean_content example_test_case)) \<noteq> Some ''boom''"
  by (simp add: run_def failing_clean_content_def example_test_case_def)

end
